theory Spec2Isabelle
  imports Main "HOL-Library.Word"
begin

unbundle bit_operations_syntax

section \<open>The SQL table editor (go/libraries/doltcore/sqle/tables.go)\<close>

text \<open>
  Errors of the table editor. An error handed on unchanged keeps its cause; an error built
  with \<open>errhand.BuildDError(msg).AddCause(err).Build()\<close> carries the message and the
  cause; \<open>errors.New\<close> and \<open>fmt.Errorf\<close> carry their text.
\<close>

datatype 'e edit_error = Passed 'e | DError string 'e | ErrorText string

text \<open>
  Modelled from the spec: \<open>types.MapEditor\<close> (go/store/types) is not among the sources.
  The editor is the map it was opened on together with the log of pending edits; \<open>Set\<close>
  and \<open>Remove\<close> add one edit to the editor they are called on and return that same
  editor, which is what \<open>Insert\<close> and \<open>Delete\<close> of tables.go rely on when they
  store the returned pointer back. \<open>Map\<close> applies the pending edits in order.
\<close>

record ('k, 'v) MapEditor =
  base :: "'k \<Rightarrow> 'v option"
  edits :: "('k \<times> 'v option) list"

definition Edit :: "('k \<Rightarrow> 'v option) \<Rightarrow> ('k, 'v) MapEditor" where
  "Edit m = \<lparr>base = m, edits = []\<rparr>"

definition Set_ed :: "('k, 'v) MapEditor \<Rightarrow> 'k \<Rightarrow> 'v \<Rightarrow> ('k, 'v) MapEditor" where
  "Set_ed med k v = med\<lparr>edits := edits med @ [(k, Some v)]\<rparr>"

definition Remove_ed :: "('k, 'v) MapEditor \<Rightarrow> 'k \<Rightarrow> ('k, 'v) MapEditor" where
  "Remove_ed med k = med\<lparr>edits := edits med @ [(k, None)]\<rparr>"

fun apply_edits :: "('k \<Rightarrow> 'v option) \<Rightarrow> ('k \<times> 'v option) list \<Rightarrow> ('k \<Rightarrow> 'v option)" where
  "apply_edits m [] = m"
| "apply_edits m ((k, v) # es) = apply_edits (m(k := v)) es"

definition Map_ed :: "('k, 'v) MapEditor \<Rightarrow> ('k \<Rightarrow> 'v option)" where
  "Map_ed med = apply_edits (base med) (edits med)"

text \<open>
  What \<open>Update\<close> calls outside tables.go, for a table \<open>t\<close> with its schema: the row
  conversion \<open>SqlRowToDoltRow\<close>, the key of a row evaluated
  (\<open>NomsMapKey(sch).Value(ctx)\<close>), the value of a row (\<open>NomsMapValue(sch)\<close>), the
  lookup \<open>t.table.GetRow\<close> in the stored table (whether the row exists),
  \<open>t.table.GetRowData\<close>, and the \<open>%v\<close> rendering of a SQL value.
\<close>

record ('c, 'd, 'k, 'v, 'e) DoltTable =
  SqlRowToDoltRow :: "'c list \<Rightarrow> 'e + 'd"
  NomsMapKeyValue :: "'d \<Rightarrow> 'e + 'k"
  NomsMapValue :: "'d \<Rightarrow> 'v"
  GetRow :: "'k \<Rightarrow> 'e + bool"
  GetRowData :: "'e + ('k \<Rightarrow> 'v option)"
  fmt_v :: "'c \<Rightarrow> string"

record ('c, 'd, 'k, 'v, 'e) tableEditor =
  t :: "('c, 'd, 'k, 'v, 'e) DoltTable"
  ed :: "('k, 'v) MapEditor option"

definition newMapEditor ::
  "('c, 'd, 'k, 'v, 'e) DoltTable \<Rightarrow> 'e edit_error + ('k, 'v) MapEditor" where
  "newMapEditor tbl =
     (case GetRowData tbl of
        Inl err \<Rightarrow> Inl (DError ''failed to get row data.'' err)
      | Inr typesMap \<Rightarrow> Inr (Edit typesMap))"

fun strings_Join :: "string list \<Rightarrow> string \<Rightarrow> string" where
  "strings_Join [] sep = []"
| "strings_Join [s] sep = s"
| "strings_Join (s # ss) sep = s @ sep @ strings_Join ss sep"

text \<open>
  \<open>Update\<close> returns its error (\<open>None\<close> for \<open>nil\<close>) and the editor as the call
  leaves it: \<open>u.ed\<close> is assigned as soon as the map editor has been created, before the
  keys are compared.
\<close>

definition Update ::
  "('c, 'd, 'k, 'v, 'e) tableEditor \<Rightarrow> 'c list \<Rightarrow> 'c list
     \<Rightarrow> 'e edit_error option \<times> ('c, 'd, 'k, 'v, 'e) tableEditor" where
  "Update u oldRow newRow =
     (case SqlRowToDoltRow (t u) oldRow of Inl err \<Rightarrow> (Some (Passed err), u)
      | Inr dOldRow \<Rightarrow>
     (case SqlRowToDoltRow (t u) newRow of Inl err \<Rightarrow> (Some (Passed err), u)
      | Inr dNewRow \<Rightarrow>
     (case NomsMapKeyValue (t u) dOldRow of Inl err \<Rightarrow> (Some (Passed err), u)
      | Inr dOldKeyVal \<Rightarrow>
     (case NomsMapKeyValue (t u) dNewRow of Inl err \<Rightarrow> (Some (Passed err), u)
      | Inr dNewKeyVal \<Rightarrow>
     (case (case ed u of None \<Rightarrow> newMapEditor (t u) | Some med \<Rightarrow> Inr med) of
        Inl err \<Rightarrow> (Some err, u)
      | Inr med \<Rightarrow>
          if dOldKeyVal \<noteq> dNewKeyVal then
            (case GetRow (t u) dNewKeyVal of
               Inl err \<Rightarrow> (Some (DError ''failed to read table'' err), u\<lparr>ed := Some med\<rparr>)
             | Inr rowExists \<Rightarrow>
                 if rowExists then
                   (Some (ErrorText (''primary key collision: (''
                        @ strings_Join (map (fmt_v (t u)) newRow) '', '' @ '')'')),
                    u\<lparr>ed := Some med\<rparr>)
                 else (None, u\<lparr>ed := Some (Remove_ed med dOldKeyVal)\<rparr>))
          else (None, u\<lparr>ed := Some (Set_ed med dOldKeyVal (NomsMapValue (t u) dNewRow))\<rparr>))))))"

text \<open>The editor a call of \<open>Update\<close> works on: the one held, or a fresh one on the table's rows.\<close>

definition editor_before ::
  "('c, 'd, 'k, 'v, 'e) tableEditor \<Rightarrow> ('k, 'v) MapEditor option" where
  "editor_before u =
     (case ed u of Some med \<Rightarrow> Some med
      | None \<Rightarrow> (case newMapEditor (t u) of Inl err \<Rightarrow> None | Inr med \<Rightarrow> Some med))"

text \<open>
  A small table for concrete runs: a row is a list of integers, its key is the first
  column, its value the remaining columns; the stored table holds the rows with keys 1
  and 2.
\<close>

definition demo_rows :: "int \<Rightarrow> int list option" where
  "demo_rows = [1 \<mapsto> [10], 2 \<mapsto> [20]]"

definition demo_digit :: "int \<Rightarrow> string" where
  "demo_digit c = (if c = 1 then ''1'' else if c = 2 then ''2'' else ''?'')"

definition demo_table :: "(int, int list, int, int list, string) DoltTable" where
  "demo_table = \<lparr>
     SqlRowToDoltRow = (\<lambda>r. if r = [] then Inl ''empty row'' else Inr r),
     NomsMapKeyValue = (\<lambda>d. Inr (hd d)),
     NomsMapValue = tl,
     GetRow = (\<lambda>k. Inr (demo_rows k \<noteq> None)),
     GetRowData = Inr demo_rows,
     fmt_v = demo_digit\<rparr>"

definition demo_editor :: "(int, int list, int, int list, string) tableEditor" where
  "demo_editor = \<lparr>t = demo_table, ed = None\<rparr>"

lemma apply_edits_append:
  "apply_edits m (es @ fs) = apply_edits (apply_edits m es) fs"
  by (induction es arbitrary: m) auto

lemma Map_ed_Remove_ed: "Map_ed (Remove_ed med k) = (Map_ed med)(k := None)"
  by (simp add: Map_ed_def Remove_ed_def apply_edits_append)

lemma Map_ed_Set_ed: "Map_ed (Set_ed med k v) = (Map_ed med)(k \<mapsto> v)"
  by (simp add: Map_ed_def Set_ed_def apply_edits_append)

text \<open>
  Claim C10. When \<open>Update\<close> succeeds and the key of the old row differs from the key
  of the new row, no row of the stored table has the new key, and the call adds exactly
  one pending edit to the map editor it works on: the removal of the old key. The map the
  editor stands for afterwards is the one before with the old key removed; the new key
  maps to what it mapped to before, so the new row is not inserted. When the keys are
  equal the one edit added sets the old key to the value of the new row; this is the only
  branch that writes the new row's value.
\<close>

theorem Update_changed_key_only_removes:
  assumes ok: "Update u oldRow newRow = (None, u')"
    and old: "SqlRowToDoltRow (t u) oldRow = Inr dOldRow"
             "NomsMapKeyValue (t u) dOldRow = Inr dOldKey"
    and new: "SqlRowToDoltRow (t u) newRow = Inr dNewRow"
             "NomsMapKeyValue (t u) dNewRow = Inr dNewKey"
  shows "\<exists>med med'. editor_before u = Some med \<and> ed u' = Some med' \<and> t u' = t u \<and>
           base med' = base med \<and>
           (if dOldKey \<noteq> dNewKey
            then GetRow (t u) dNewKey = Inr False \<and>
                 med' = Remove_ed med dOldKey \<and>
                 edits med' = edits med @ [(dOldKey, None)] \<and>
                 Map_ed med' = (Map_ed med)(dOldKey := None) \<and>
                 Map_ed med' dOldKey = None \<and>
                 Map_ed med' dNewKey = Map_ed med dNewKey
            else med' = Set_ed med dOldKey (NomsMapValue (t u) dNewRow) \<and>
                 edits med' = edits med @ [(dOldKey, Some (NomsMapValue (t u) dNewRow))] \<and>
                 Map_ed med' dNewKey = Some (NomsMapValue (t u) dNewRow))"
proof -
  from ok old new obtain med where
    before: "(case ed u of None \<Rightarrow> newMapEditor (t u) | Some med \<Rightarrow> Inr med) = Inr med"
    by (auto simp: Update_def split: sum.splits)
  then have eb: "editor_before u = Some med"
    by (auto simp: editor_before_def split: option.splits sum.splits)
  show ?thesis
  proof (cases "dOldKey = dNewKey")
    case True
    with ok old new before
    have "u' = u\<lparr>ed := Some (Set_ed med dOldKey (NomsMapValue (t u) dNewRow))\<rparr>"
      by (simp add: Update_def)
    with eb True show ?thesis
      by (simp add: Map_ed_Set_ed) (simp add: Set_ed_def)
  next
    case False
    with ok old new before
    have g: "GetRow (t u) dNewKey = Inr False"
      and u': "u' = u\<lparr>ed := Some (Remove_ed med dOldKey)\<rparr>"
      by (auto simp: Update_def split: sum.splits if_splits)
    with eb False show ?thesis
      by (simp add: Map_ed_Remove_ed) (simp add: Remove_ed_def)
  qed
qed

theorem Update_changed_key_only_removes_witness:
  "Update demo_editor [1, 11] [3, 33]
     = (None, \<lparr>t = demo_table, ed = Some \<lparr>base = demo_rows, edits = [(1, None)]\<rparr>\<rparr>)
   \<and> (\<exists>med med'. editor_before demo_editor = Some med \<and> ed (snd (Update demo_editor [1, 11] [3, 33])) = Some med'
        \<and> edits med' = edits med @ [(1, None)] \<and> Map_ed med' 3 = Map_ed med 3
        \<and> Map_ed med' 3 = None \<and> Map_ed med' 1 = None)"
proof -
  have run: "Update demo_editor [1, 11] [3, 33]
     = (None, \<lparr>t = demo_table, ed = Some \<lparr>base = demo_rows, edits = [(1, None)]\<rparr>\<rparr>)"
    by (simp add: Update_def demo_editor_def demo_table_def demo_rows_def newMapEditor_def
        Edit_def Remove_ed_def)
  have eb: "editor_before demo_editor = Some \<lparr>base = demo_rows, edits = []\<rparr>"
    by (simp add: editor_before_def demo_editor_def demo_table_def newMapEditor_def Edit_def)
  have m3: "Map_ed \<lparr>base = demo_rows, edits = []\<rparr> 3 = None"
    by (simp add: Map_ed_def demo_rows_def)
  from Update_changed_key_only_removes [OF run, of "[1, 11]" 1 "[3, 33]" 3]
  have "\<exists>med med'. editor_before demo_editor = Some med \<and>
          ed \<lparr>t = demo_table, ed = Some \<lparr>base = demo_rows, edits = [(1, None)]\<rparr>\<rparr> = Some med' \<and>
          edits med' = edits med @ [(1, None)] \<and> Map_ed med' 1 = None \<and>
          Map_ed med' 3 = Map_ed med 3"
    by (simp add: demo_editor_def demo_table_def) blast
  with run eb m3 show ?thesis by auto
qed


section \<open>The S3 table reader (package nbs, s3_table_reader.go)\<close>

subsection \<open>Errors, panics and what a call can end with\<close>

text \<open>
  Go errors as far as \<open>isConnReset\<close> looks into them: a \<open>*net.OpError\<close> and a
  \<open>*os.SyscallError\<close> wrap an inner error in their field \<open>Err\<close>, a
  \<open>syscall.Errno\<close> is a number; \<open>io.EOF\<close> and \<open>io.ErrUnexpectedEOF\<close> are the two
  errors \<open>io.ReadFull\<close> produces itself. \<open>None\<close> stands for \<open>nil\<close>.
\<close>

datatype go_error =
    OpError go_error
  | SyscallError go_error
  | Errno nat
  | EOF
  | ErrUnexpectedEOF
  | OtherError string

definition ECONNRESET :: go_error where
  "ECONNRESET = Errno 104"

fun isConnReset :: "go_error option \<Rightarrow> bool" where
  "isConnReset (Some (OpError (SyscallError scErr))) = (scErr = ECONNRESET)"
| "isConnReset _ = False"

text \<open>
  \<open>d.PanicIfError\<close> panics with the error, \<open>d.PanicIfFalse\<close> with a failed
  expectation, and dereferencing a nil \<open>*int64\<close> panics in the runtime. A call ends by
  returning, by panicking, or it waits at a full rate-limit channel: what other readers do
  while it waits is outside this sequential model, so the wait is an outcome of its own.
\<close>

datatype panic = PanicError go_error | PanicFalse | NilDereference

datatype 'a outcome = Returned 'a | Panicked panic | Blocked

subsection \<open>The object store and the world a read runs in\<close>

type_synonym byte = "8 word"
type_synonym addr = "8 word list"

record GetObjectInput =
  Bucket :: string
  Key :: string
  Range :: string

text \<open>
  A response body is the bytes its reader delivers and the error the reader ends with
  after them (\<open>EOF\<close> for a body that simply ends). \<open>io.ReadFull body p\<close> fills
  \<open>p\<close> from the front; it returns \<open>nil\<close> when \<open>p\<close> was filled, \<open>ErrUnexpectedEOF\<close>
  when the body ended after some but not all bytes, and the reader's own error otherwise.
  The third component is the buffer afterwards.
\<close>

datatype body = Body "byte list" go_error

fun ReadFull :: "body \<Rightarrow> byte list \<Rightarrow> nat \<times> go_error option \<times> byte list" where
  "ReadFull (Body bs e) p =
     (if length p \<le> length bs then (length p, None, take (length p) bs)
      else (length bs,
            Some (if e = EOF \<and> 0 < length bs then ErrUnexpectedEOF else e),
            bs @ drop (length bs) p))"

text \<open>\<open>GetObject\<close> returns an error, or an output with \<open>ContentLength\<close> (a \<open>*int64\<close>) and a body.\<close>

datatype s3_response = GetErr go_error | GetOk "int option" body

text \<open>
  The \<open>backoff.Backoff\<close> value of github.com/jpillora/backoff: limits in nanoseconds
  (\<open>time.Duration\<close>), the factor, the jitter flag and the attempt counter that
  \<open>Duration\<close> advances.
\<close>

record Backoff =
  Min :: nat
  Max :: nat
  Factor :: nat
  Jitter :: bool
  attempts :: nat

definition Microsecond :: nat where "Microsecond = 1000"
definition Millisecond :: nat where "Millisecond = 1000000"

datatype 'idx event =
    Acquire
  | Release
  | Request GetObjectInput
  | LogFailedRead GetObjectInput go_error
  | LogRetry nat
  | Sleep nat
  | CachePut addr 'idx

text \<open>
  What the reader calls outside this file is taken as given: the object store answers the
  \<open>k\<close>-th \<open>GetObject\<close> request of a run (any function of \<open>k\<close> and the input); the
  backoff library computes a delay from the backoff value (any function: the random jitter
  is part of it); \<open>addr.String\<close>, \<open>indexSize\<close>, \<open>footerSize\<close>,
  \<open>parseTableIndex\<close> and the chunk count of a parsed index belong to the table format.
\<close>

record 'idx s3svc =
  GetObject :: "nat \<Rightarrow> GetObjectInput \<Rightarrow> s3_response"
  ForAttempt :: "Backoff \<Rightarrow> nat"
  addr_String :: "addr \<Rightarrow> string"
  indexSize :: "32 word \<Rightarrow> 64 word"
  footerSize :: "64 word"
  parseTableIndex :: "byte list \<Rightarrow> panic + 'idx"
  chunkCount_of :: "'idx \<Rightarrow> 32 word"

text \<open>
  Modelled from the spec: the index cache (\<open>indexCache\<close>, with \<open>get\<close> and \<open>put\<close>) is
  not among the sources; the spec describes it as a key-value cache from table hash to
  parsed index. The world holds its contents, the number of requests sent so far, the
  number of slots taken in the rate-limit channel, and the trace of what happened.
\<close>

record 'idx world =
  requests :: nat
  readRl_len :: nat
  events :: "'idx event list"
  cache :: "addr \<Rightarrow> 'idx option"

text \<open>The reader before its embedded \<open>tableReader\<close> is set; \<open>readRl\<close> is the capacity of the channel, \<open>None\<close> for a nil channel.\<close>

record s3Source =
  bucket :: string
  h :: addr
  readRl :: "nat option"

record 'idx s3TableReader = s3Source +
  index :: 'idx
  blockSize :: nat

definition s3RangePrefix :: string where "s3RangePrefix = ''bytes''"
definition s3BlockSize :: nat where "s3BlockSize = 2 ^ 10 * 512"

subsection \<open>Decimal rendering (\<open>%d\<close> of \<open>fmt.Sprintf\<close>)\<close>

fun digits :: "nat \<Rightarrow> string" where
  "digits n = (if n < 10 then [''0123456789'' ! n]
               else digits (n div 10) @ [''0123456789'' ! (n mod 10)])"

definition fmt_d :: "int \<Rightarrow> string" where
  "fmt_d i = (if i < 0 then ''-'' @ digits (nat (- i)) else digits (nat i))"

subsection \<open>One attempt, the retry loop, \<open>readRange\<close> and \<open>ReadAt\<close>\<close>

type_synonym read_result = "nat \<times> go_error option \<times> byte list"

text \<open>The \<open>s3.GetObjectInput\<close> every attempt of a ranged read sends.\<close>

definition request_input :: "'idx s3svc \<Rightarrow> 's s3Source_scheme \<Rightarrow> string \<Rightarrow> GetObjectInput" where
  "request_input s3 s3tr rangeHeader =
     \<lparr>Bucket = bucket s3tr, Key = addr_String s3 (h s3tr), Range = rangeHeader\<rparr>"

text \<open>The body of the closure \<open>read\<close> from the request on; the deferred release is in \<open>read\<close> below.\<close>

definition read_request ::
  "'idx s3svc \<Rightarrow> 's s3Source_scheme \<Rightarrow> byte list \<Rightarrow> string \<Rightarrow> 'idx world
     \<Rightarrow> read_result outcome \<times> 'idx world" where
  "read_request s3 s3tr p rangeHeader w =
     (let input = request_input s3 s3tr rangeHeader;
          w1 = w\<lparr>requests := requests w + 1, events := events w @ [Request input]\<rparr>
      in case GetObject s3 (requests w) input of
           GetErr err \<Rightarrow> (Panicked (PanicError err), w1)
         | GetOk None b \<Rightarrow> (Panicked NilDereference, w1)
         | GetOk (Some ContentLength) b \<Rightarrow>
             if ContentLength \<noteq> int (length p) then (Panicked PanicFalse, w1)
             else (case ReadFull b p of
                     (n, None, p') \<Rightarrow> (Returned (n, None, p'), w1)
                   | (n, Some err, p') \<Rightarrow>
                       (Returned (n, Some err, p'),
                        w1\<lparr>events := events w1 @ [LogFailedRead input err]\<rparr>)))"

definition read ::
  "'idx s3svc \<Rightarrow> 's s3Source_scheme \<Rightarrow> byte list \<Rightarrow> string \<Rightarrow> 'idx world
     \<Rightarrow> read_result outcome \<times> 'idx world" where
  "read s3 s3tr p rangeHeader w =
     (case readRl s3tr of
        None \<Rightarrow> read_request s3 s3tr p rangeHeader w
      | Some capacity \<Rightarrow>
          if capacity \<le> readRl_len w then (Blocked, w)
          else (case read_request s3 s3tr p rangeHeader
                       (w\<lparr>readRl_len := readRl_len w + 1, events := events w @ [Acquire]\<rparr>) of
                  (r, w1) \<Rightarrow>
                    (r, w1\<lparr>readRl_len := readRl_len w1 - 1, events := events w1 @ [Release]\<rparr>)))"

definition Duration :: "'idx s3svc \<Rightarrow> Backoff \<Rightarrow> nat \<times> Backoff" where
  "Duration s3 b = (ForAttempt s3 b, b\<lparr>attempts := attempts b + 1\<rparr>)"

text \<open>
  The loop \<open>for ; isConnReset(err); n, err = read() { ... }\<close>. It has no bound, so the
  function is partial: \<open>None\<close> is a run that never leaves the loop.
\<close>

partial_function (option) retry_loop ::
  "'idx s3svc \<Rightarrow> 's s3Source_scheme \<Rightarrow> string \<Rightarrow> Backoff \<Rightarrow> read_result \<Rightarrow> 'idx world
     \<Rightarrow> (read_result outcome \<times> 'idx world) option" where
  "retry_loop s3 s3tr rangeHeader b r w =
     (if isConnReset (fst (snd r)) then
        (case Duration s3 b of
           (dur, b') \<Rightarrow>
             (case read s3 s3tr (snd (snd r)) rangeHeader
                     (w\<lparr>events := events w @ [LogRetry dur, Sleep dur]\<rparr>) of
                (Returned r', w') \<Rightarrow> retry_loop s3 s3tr rangeHeader b' r' w'
              | (Panicked x, w') \<Rightarrow> Some (Panicked x, w')
              | (Blocked, w') \<Rightarrow> Some (Blocked, w')))
      else Some (Returned r, w))"

definition new_backoff :: Backoff where
  "new_backoff = \<lparr>Min = 128 * Microsecond, Max = 1024 * Millisecond, Factor = 2,
                  Jitter = True, attempts = 0\<rparr>"

definition readRange ::
  "'idx s3svc \<Rightarrow> 's s3Source_scheme \<Rightarrow> byte list \<Rightarrow> string \<Rightarrow> 'idx world
     \<Rightarrow> (read_result outcome \<times> 'idx world) option" where
  "readRange s3 s3tr p rangeHeader w =
     (case read s3 s3tr p rangeHeader w of
        (Returned r, w') \<Rightarrow>
          if isConnReset (fst (snd r)) then retry_loop s3 s3tr rangeHeader new_backoff r w'
          else Some (Returned r, w')
      | (Panicked x, w') \<Rightarrow> Some (Panicked x, w')
      | (Blocked, w') \<Rightarrow> Some (Blocked, w'))"

text \<open>
  \<open>off\<close> is an \<open>int64\<close> and \<open>end := off + int64(len(p)) - 1\<close> is computed in 64-bit
  arithmetic; \<open>%d\<close> prints both as signed numbers.
\<close>

definition range_end :: "64 word \<Rightarrow> byte list \<Rightarrow> 64 word" where
  "range_end off p = off + of_nat (length p) - 1"

definition ReadAt_header :: "byte list \<Rightarrow> 64 word \<Rightarrow> string" where
  "ReadAt_header p off =
     s3RangePrefix @ ''='' @ fmt_d (sint off) @ ''-'' @ fmt_d (sint (range_end off p))"

definition ReadAt ::
  "'idx s3svc \<Rightarrow> 's s3Source_scheme \<Rightarrow> byte list \<Rightarrow> 64 word \<Rightarrow> 'idx world
     \<Rightarrow> (read_result outcome \<times> 'idx world) option" where
  "ReadAt s3 s3tr p off w = readRange s3 s3tr p (ReadAt_header p off) w"

subsection \<open>Construction\<close>

definition finish_reader ::
  "'idx s3svc \<Rightarrow> s3Source \<Rightarrow> 32 word \<Rightarrow> 'idx \<Rightarrow> 'idx world
     \<Rightarrow> 'idx s3TableReader outcome \<times> 'idx world" where
  "finish_reader s3 source chunkCount idx w =
     (if chunkCount = chunkCount_of s3 idx
      then (Returned (s3Source.extend source \<lparr>index = idx, blockSize = s3BlockSize\<rparr>), w)
      else (Panicked PanicFalse, w))"

text \<open>\<open>indexCache\<close> tells whether a cache was supplied (a non-nil pointer).\<close>

definition newS3TableReader ::
  "'idx s3svc \<Rightarrow> string \<Rightarrow> addr \<Rightarrow> 32 word \<Rightarrow> bool \<Rightarrow> nat option \<Rightarrow> 'idx world
     \<Rightarrow> ('idx s3TableReader outcome \<times> 'idx world) option" where
  "newS3TableReader s3 bkt hsh chunkCount indexCache rl w =
     (let source = \<lparr>bucket = bkt, h = hsh, readRl = rl\<rparr> in
      case (if indexCache then cache w hsh else None) of
        Some idx \<Rightarrow> Some (finish_reader s3 source chunkCount idx w)
      | None \<Rightarrow>
          (let size = indexSize s3 chunkCount + footerSize s3;
               buff = replicate (unat size) (0 :: byte)
           in case readRange s3 source buff (s3RangePrefix @ ''=-'' @ fmt_d (uint size)) w of
                None \<Rightarrow> None
              | Some (Panicked x, w') \<Rightarrow> Some (Panicked x, w')
              | Some (Blocked, w') \<Rightarrow> Some (Blocked, w')
              | Some (Returned (n, Some err, buff'), w') \<Rightarrow> Some (Panicked (PanicError err), w')
              | Some (Returned (n, None, buff'), w') \<Rightarrow>
                  if size \<noteq> of_nat n then Some (Panicked PanicFalse, w')
                  else (case parseTableIndex s3 buff' of
                          Inl x \<Rightarrow> Some (Panicked x, w')
                        | Inr idx \<Rightarrow>
                            Some (finish_reader s3 source chunkCount idx
                              (if indexCache
                               then w'\<lparr>events := events w' @ [CachePut hsh idx],
                                       cache := (cache w')(hsh \<mapsto> idx)\<rparr>
                               else w')))))"

subsection \<open>Vocabulary for statements about runs\<close>

text \<open>The answer of the object store to the \<open>k\<close>-th request of a run, for a given ranged read.\<close>

definition response_at :: "'idx s3svc \<Rightarrow> 's s3Source_scheme \<Rightarrow> string \<Rightarrow> nat \<Rightarrow> s3_response" where
  "response_at s3 s3tr rangeHeader k = GetObject s3 k (request_input s3 s3tr rangeHeader)"

text \<open>
  A response whose body is reset by the peer: the request succeeds with the content length
  asked for, and the body's reader fails with a connection reset before \<open>n\<close> bytes came.
\<close>

fun resets_body :: "nat \<Rightarrow> s3_response \<Rightarrow> bool" where
  "resets_body n (GetOk (Some ContentLength) (Body bs e)) =
     (ContentLength = int n \<and> length bs < n \<and> isConnReset (Some e))"
| "resets_body n _ = False"

text \<open>No rate-limit channel, or one with a free slot.\<close>

definition gate_free :: "'s s3Source_scheme \<Rightarrow> 'idx world \<Rightarrow> bool" where
  "gate_free s3tr w = (case readRl s3tr of None \<Rightarrow> True | Some capacity \<Rightarrow> readRl_len w < capacity)"

fun is_retry_event :: "'idx event \<Rightarrow> bool" where
  "is_retry_event (LogRetry d) = True"
| "is_retry_event (Sleep d) = True"
| "is_retry_event _ = False"

fun is_gate_event :: "'idx event \<Rightarrow> bool" where
  "is_gate_event Acquire = True"
| "is_gate_event Release = True"
| "is_gate_event _ = False"

fun is_request :: "'idx event \<Rightarrow> bool" where
  "is_request (Request input) = True"
| "is_request _ = False"

fun is_put :: "'idx event \<Rightarrow> bool" where
  "is_put (CachePut a idx) = True"
| "is_put _ = False"

fun reset_outcome :: "read_result outcome \<Rightarrow> bool" where
  "reset_outcome (Returned r) = isConnReset (fst (snd r))"
| "reset_outcome _ = False"

text \<open>The events a run added to the trace.\<close>

definition new_events :: "'idx world \<Rightarrow> 'idx world \<Rightarrow> 'idx event list" where
  "new_events w w' = drop (length (events w)) (events w')"

text \<open>The delay the backoff library gives for the \<open>k\<close>-th retry of a ranged read.\<close>

definition delay :: "'idx s3svc \<Rightarrow> nat \<Rightarrow> nat" where
  "delay s3 k = ForAttempt s3 (new_backoff\<lparr>attempts := k\<rparr>)"

subsection \<open>A small object store for concrete runs\<close>

text \<open>
  The error \<open>isConnReset\<close> recognises; a reader on bucket \<open>b\<close> with a rate-limit
  channel of capacity 1; a fresh world; and an object store that answers the \<open>k\<close>-th
  request with \<open>g k\<close>, whose backoff delays are the unjittered \<open>Min * Factor ^ attempts\<close>
  capped at \<open>Max\<close>, and whose table index is the raw tail of the table file, holding one
  chunk per two bytes before a footer of one byte.
\<close>

definition reset_error :: go_error where
  "reset_error = OpError (SyscallError ECONNRESET)"

definition demo_source :: s3Source where
  "demo_source = \<lparr>bucket = ''b'', h = [1, 2], readRl = Some 1\<rparr>"

definition demo_world :: "byte list world" where
  "demo_world = \<lparr>requests = 0, readRl_len = 0, events = [], cache = (\<lambda>a. None)\<rparr>"

definition demo_s3 :: "(nat \<Rightarrow> s3_response) \<Rightarrow> byte list s3svc" where
  "demo_s3 g = \<lparr>
     GetObject = (\<lambda>k input. g k),
     ForAttempt = (\<lambda>b. min (Max b) (Min b * Factor b ^ attempts b)),
     addr_String = (\<lambda>a. ''t''),
     indexSize = (\<lambda>n. 2 * ucast n),
     footerSize = 1,
     parseTableIndex = Inr,
     chunkCount_of = (\<lambda>idx. of_nat ((length idx - 1) div 2))\<rparr>"

text \<open>Two bodies reset by the peer after one byte, then a complete body of three bytes.\<close>

definition two_resets :: "nat \<Rightarrow> s3_response" where
  "two_resets k = (if k < 2 then GetOk (Some 3) (Body [7] reset_error)
                   else GetOk (Some 3) (Body [7, 8, 9] EOF))"

subsection \<open>One attempt and the retry loop\<close>


lemma length_ReadFull: "length (snd (snd (ReadFull b p))) = length p"
  by (cases b) auto

lemma read_request_facts:
  "\<exists>r w' evs. read_request s3 s3tr p hdr w = (r, w') \<and> r \<noteq> Blocked \<and>
     requests w' = requests w + 1 \<and> readRl_len w' = readRl_len w \<and> cache w' = cache w \<and>
     events w' = events w @ Request (request_input s3 s3tr hdr) # evs \<and>
     filter is_retry_event evs = [] \<and> filter is_gate_event evs = [] \<and>
     filter is_request evs = [] \<and> filter is_put evs = [] \<and>
     (reset_outcome r \<longleftrightarrow> resets_body (length p) (response_at s3 s3tr hdr (requests w))) \<and>
     (\<forall>n e p'. r = Returned (n, e, p') \<longrightarrow> length p' = length p)"
proof (cases "response_at s3 s3tr hdr (requests w)")
  case (GetErr e)
  then show ?thesis
    by (simp add: read_request_def response_at_def Let_def)
next
  case (GetOk cl b)
  show ?thesis
  proof (cases cl)
    case None
    with GetOk show ?thesis by (simp add: read_request_def response_at_def Let_def)
  next
    case (Some c)
    obtain bs e where b: "b = Body bs e" by (cases b)
    show ?thesis
    proof (cases "c = int (length p)")
      case False
      with GetOk Some b show ?thesis by (simp add: read_request_def response_at_def Let_def)
    next
      case True
      with GetOk Some b show ?thesis
        by (auto simp add: read_request_def response_at_def Let_def ECONNRESET_def)
    qed
  qed
qed

lemma read_facts:
  assumes "gate_free s3tr w"
  shows "\<exists>r w' evs. read s3 s3tr p hdr w = (r, w') \<and> r \<noteq> Blocked \<and>
     requests w' = requests w + 1 \<and> readRl_len w' = readRl_len w \<and> cache w' = cache w \<and>
     events w' = events w @ evs \<and>
     filter is_retry_event evs = [] \<and> filter is_put evs = [] \<and>
     filter is_request evs = [Request (request_input s3 s3tr hdr)] \<and>
     filter is_gate_event evs = (if readRl s3tr = None then [] else [Acquire, Release]) \<and>
     (reset_outcome r \<longleftrightarrow> resets_body (length p) (response_at s3 s3tr hdr (requests w))) \<and>
     (\<forall>n e p'. r = Returned (n, e, p') \<longrightarrow> length p' = length p)"
proof (cases "readRl s3tr")
  case None
  with read_request_facts [of s3 s3tr p hdr w] show ?thesis
    by (auto simp: read_def)
next
  case (Some c)
  let ?w1 = "w\<lparr>readRl_len := readRl_len w + 1, events := events w @ [Acquire]\<rparr>"
  from read_request_facts [of s3 s3tr p hdr ?w1]
  obtain r w' evs where rr: "read_request s3 s3tr p hdr ?w1 = (r, w')" "r \<noteq> Blocked"
     "requests w' = requests w + 1" "readRl_len w' = readRl_len w + 1" "cache w' = cache w"
     "events w' = events w @ Acquire # Request (request_input s3 s3tr hdr) # evs"
     "filter is_retry_event evs = []" "filter is_gate_event evs = []"
     "filter is_request evs = []" "filter is_put evs = []"
     "reset_outcome r \<longleftrightarrow> resets_body (length p) (response_at s3 s3tr hdr (requests w))"
     "\<forall>n e p'. r = Returned (n, e, p') \<longrightarrow> length p' = length p"
    by auto
  from assms Some have "\<not> c \<le> readRl_len w" by (simp add: gate_free_def)
  with Some rr show ?thesis
    by (simp add: read_def)
qed

lemma gate_free_cong:
  "readRl_len w' = readRl_len w \<Longrightarrow> gate_free s3tr w' = gate_free s3tr w"
  by (simp add: gate_free_def split: option.splits)

text \<open>
  What \<open>k\<close> rounds of the loop log and sleep, from backoff value \<open>b\<close> on: each
  round logs its delay and then sleeps for it.
\<close>

definition retry_events :: "'idx s3svc \<Rightarrow> Backoff \<Rightarrow> nat \<Rightarrow> 'idx event list" where
  "retry_events s3 b N = concat (map (\<lambda>k. [LogRetry (ForAttempt s3 (b\<lparr>attempts := attempts b + k\<rparr>)),
        Sleep (ForAttempt s3 (b\<lparr>attempts := attempts b + k\<rparr>))]) [0..<N])"

lemma retry_events_Suc:
  "retry_events s3 b (Suc N) = LogRetry (ForAttempt s3 b) # Sleep (ForAttempt s3 b) #
      retry_events s3 (b\<lparr>attempts := attempts b + 1\<rparr>) N"
  by (simp add: retry_events_def upt_rec [of 0] map_Suc_upt [symmetric] del: upt_Suc)
   (simp add: comp_def)

lemma retry_loop_stops:
  assumes "gate_free s3tr w" "isConnReset (fst (snd r))" "length (snd (snd r)) = L"
    and "\<forall>k<N. resets_body L (response_at s3 s3tr hdr (requests w + k))"
    and "\<not> resets_body L (response_at s3 s3tr hdr (requests w + N))"
  shows "\<exists>out w' p' w'' evs. retry_loop s3 s3tr hdr b r w = Some (out, w') \<and>
      (out, w') = read s3 s3tr p' hdr w'' \<and> length p' = L \<and> requests w'' = requests w + N \<and>
      readRl_len w'' = readRl_len w \<and>
      \<not> reset_outcome out \<and> out \<noteq> Blocked \<and>
      requests w' = requests w + N + 1 \<and> readRl_len w' = readRl_len w \<and> cache w' = cache w \<and>
      events w' = events w @ evs \<and>
      filter is_retry_event evs = retry_events s3 b (Suc N) \<and>
      filter is_put evs = [] \<and>
      filter is_request evs = replicate (Suc N) (Request (request_input s3 s3tr hdr)) \<and>
      filter is_gate_event evs = concat (replicate (Suc N) (if readRl s3tr = None then [] else [Acquire, Release]))"
  using assms
proof (induction N arbitrary: b r w)
  case 0
  let ?d = "ForAttempt s3 b"
  let ?w1 = "w\<lparr>events := events w @ [LogRetry ?d, Sleep ?d]\<rparr>"
  have gf: "gate_free s3tr ?w1" using 0(1) gate_free_cong [of ?w1 w s3tr] by simp
  from read_facts [OF gf, of s3 "snd (snd r)" hdr]
  obtain out w' evs where rd: "read s3 s3tr (snd (snd r)) hdr ?w1 = (out, w')" "out \<noteq> Blocked"
     "requests w' = requests w + 1" "readRl_len w' = readRl_len w" "cache w' = cache w"
     "events w' = events w @ [LogRetry ?d, Sleep ?d] @ evs"
     "filter is_retry_event evs = []" "filter is_put evs = []"
     "filter is_request evs = [Request (request_input s3 s3tr hdr)]"
     "filter is_gate_event evs = (if readRl s3tr = None then [] else [Acquire, Release])"
     "reset_outcome out \<longleftrightarrow> resets_body (length (snd (snd r))) (response_at s3 s3tr hdr (requests w))"
    by auto
  from rd(11) 0 have nr: "\<not> reset_outcome out" by simp
  have rl: "retry_loop s3 s3tr hdr b r w = Some (out, w')"
  proof (cases out)
    case (Returned r')
    with nr have "\<not> isConnReset (fst (snd r'))" by simp
    then have "retry_loop s3 s3tr hdr (b\<lparr>attempts := attempts b + 1\<rparr>) r' w' = Some (Returned r', w')"
      by (subst retry_loop.simps) simp
    with Returned rd(1) 0(2) show ?thesis
      by (subst retry_loop.simps) (simp add: Duration_def)
  next
    case (Panicked x)
    with rd(1) 0(2) show ?thesis
      by (subst retry_loop.simps) (simp add: Duration_def)
  next
    case Blocked
    with rd(2) show ?thesis by simp
  qed
  show ?case
  proof (rule exI [of _ out], rule exI [of _ w'], rule exI [of _ "snd (snd r)"], rule exI [of _ ?w1],
         rule exI [of _ "[LogRetry ?d, Sleep ?d] @ evs"], intro conjI)
    show "retry_loop s3 s3tr hdr b r w = Some (out, w')" by (fact rl)
    show "(out, w') = read s3 s3tr (snd (snd r)) hdr ?w1" using rd(1) by simp
    show "length (snd (snd r)) = L" by (fact 0(3))
    show "requests ?w1 = requests w + 0" by simp
    show "readRl_len ?w1 = readRl_len w" by simp
    show "\<not> reset_outcome out" by (fact nr)
    show "out \<noteq> Blocked" by (fact rd(2))
    show "requests w' = requests w + 0 + 1" using rd(3) by simp
    show "readRl_len w' = readRl_len w" by (fact rd(4))
    show "cache w' = cache w" by (fact rd(5))
    show "events w' = events w @ [LogRetry ?d, Sleep ?d] @ evs" by (fact rd(6))
    show "filter is_retry_event ([LogRetry ?d, Sleep ?d] @ evs) = retry_events s3 b (Suc 0)"
      using rd(7) by (simp add: retry_events_def)
    show "filter is_put ([LogRetry ?d, Sleep ?d] @ evs) = []" using rd(8) by simp
    show "filter is_request ([LogRetry ?d, Sleep ?d] @ evs)
        = replicate (Suc 0) (Request (request_input s3 s3tr hdr))" using rd(9) by simp
    show "filter is_gate_event ([LogRetry ?d, Sleep ?d] @ evs)
        = concat (replicate (Suc 0) (if readRl s3tr = None then [] else [Acquire, Release]))"
      using rd(10) by simp
  qed
next
  case (Suc N)
  let ?d = "ForAttempt s3 b"
  let ?w1 = "w\<lparr>events := events w @ [LogRetry ?d, Sleep ?d]\<rparr>"
  let ?b' = "b\<lparr>attempts := attempts b + 1\<rparr>"
  have gf: "gate_free s3tr ?w1" using Suc.prems(1) gate_free_cong [of ?w1 w s3tr] by simp
  from read_facts [OF gf, of s3 "snd (snd r)" hdr]
  obtain out w1 evs where rd: "read s3 s3tr (snd (snd r)) hdr ?w1 = (out, w1)" "out \<noteq> Blocked"
     "requests w1 = requests w + 1" "readRl_len w1 = readRl_len w" "cache w1 = cache w"
     "events w1 = events w @ [LogRetry ?d, Sleep ?d] @ evs"
     "filter is_retry_event evs = []" "filter is_put evs = []"
     "filter is_request evs = [Request (request_input s3 s3tr hdr)]"
     "filter is_gate_event evs = (if readRl s3tr = None then [] else [Acquire, Release])"
     "reset_outcome out \<longleftrightarrow> resets_body (length (snd (snd r))) (response_at s3 s3tr hdr (requests w))"
     "\<forall>n e p'. out = Returned (n, e, p') \<longrightarrow> length p' = length (snd (snd r))"
    by auto
  from Suc.prems(4) have "resets_body L (response_at s3 s3tr hdr (requests w + 0))" by blast
  with rd(11) Suc.prems(3) have "reset_outcome out" by simp
  then obtain r' where out: "out = Returned r'" and cr: "isConnReset (fst (snd r'))"
    by (cases out) auto
  from rd(12) out Suc.prems(3) have len: "length (snd (snd r')) = L"
    by (cases r') auto
  have gf1: "gate_free s3tr w1" using Suc.prems(1) rd(4) gate_free_cong [of w1 w s3tr] by simp
  have a: "\<forall>k<N. resets_body L (response_at s3 s3tr hdr (requests w1 + k))"
  proof (intro allI impI)
    fix k assume "k < N"
    then have "Suc k < Suc N" by simp
    with Suc.prems(4) have "resets_body L (response_at s3 s3tr hdr (requests w + Suc k))" by blast
    then show "resets_body L (response_at s3 s3tr hdr (requests w1 + k))" using rd(3) by simp
  qed
  have b: "\<not> resets_body L (response_at s3 s3tr hdr (requests w1 + N))"
    using Suc.prems(5) rd(3) by simp
  from Suc.IH [OF gf1 cr len a b, of ?b']
  obtain out' w' p' w'' evs' where ih:
    "retry_loop s3 s3tr hdr ?b' r' w1 = Some (out', w')"
    "(out', w') = read s3 s3tr p' hdr w''" "length p' = L" "requests w'' = requests w1 + N"
    "readRl_len w'' = readRl_len w1"
    "\<not> reset_outcome out'" "out' \<noteq> Blocked"
    "requests w' = requests w1 + N + 1" "readRl_len w' = readRl_len w1" "cache w' = cache w1"
    "events w' = events w1 @ evs'"
    "filter is_retry_event evs' = retry_events s3 ?b' (Suc N)"
    "filter is_put evs' = []"
    "filter is_request evs' = replicate (Suc N) (Request (request_input s3 s3tr hdr))"
    "filter is_gate_event evs' = concat (replicate (Suc N) (if readRl s3tr = None then [] else [Acquire, Release]))"
    by blast
  have rl: "retry_loop s3 s3tr hdr b r w = Some (out', w')"
    using rd(1) out Suc.prems(2) ih(1)
    by (subst retry_loop.simps) (simp add: Duration_def)
  show ?case
  proof (rule exI [of _ out'], rule exI [of _ w'], rule exI [of _ p'], rule exI [of _ w''],
         rule exI [of _ "[LogRetry ?d, Sleep ?d] @ evs @ evs'"], intro conjI)
    show "retry_loop s3 s3tr hdr b r w = Some (out', w')" by (fact rl)
    show "(out', w') = read s3 s3tr p' hdr w''" by (fact ih(2))
    show "length p' = L" by (fact ih(3))
    show "requests w'' = requests w + Suc N" using ih(4) rd(3) by simp
    show "readRl_len w'' = readRl_len w" using ih(5) rd(4) by simp
    show "\<not> reset_outcome out'" by (fact ih(6))
    show "out' \<noteq> Blocked" by (fact ih(7))
    show "requests w' = requests w + Suc N + 1" using ih(8) rd(3) by simp
    show "readRl_len w' = readRl_len w" using ih(9) rd(4) by simp
    show "cache w' = cache w" using ih(10) rd(5) by simp
    show "events w' = events w @ [LogRetry ?d, Sleep ?d] @ evs @ evs'" using ih(11) rd(6) by simp
    show "filter is_retry_event ([LogRetry ?d, Sleep ?d] @ evs @ evs') = retry_events s3 b (Suc (Suc N))"
      using rd(7) ih(12) by (simp add: retry_events_Suc [of s3 b "Suc N"])
    show "filter is_put ([LogRetry ?d, Sleep ?d] @ evs @ evs') = []" using rd(8) ih(13) by simp
    show "filter is_request ([LogRetry ?d, Sleep ?d] @ evs @ evs')
        = replicate (Suc (Suc N)) (Request (request_input s3 s3tr hdr))" using rd(9) ih(14) by simp
    show "filter is_gate_event ([LogRetry ?d, Sleep ?d] @ evs @ evs')
        = concat (replicate (Suc (Suc N)) (if readRl s3tr = None then [] else [Acquire, Release]))"
      using rd(10) ih(15) by simp
  qed
qed




lemma retry_loop_forever_aux:
  assumes "retry_loop s3 s3tr hdr b r w = Some y"
  shows "\<not> (gate_free s3tr w \<and> isConnReset (fst (snd r)) \<and>
            (\<forall>k. resets_body (length (snd (snd r))) (response_at s3 s3tr hdr (requests w + k))))"
proof (rule retry_loop.raw_induct [where P = "\<lambda>s3 s3tr hdr b r w y. \<not> (gate_free s3tr w \<and> isConnReset (fst (snd r)) \<and>
            (\<forall>k. resets_body (length (snd (snd r))) (response_at s3 s3tr hdr (requests w + k))))", OF _ assms])
  fix f :: "'a s3svc \<Rightarrow> 'b s3Source_scheme \<Rightarrow> string \<Rightarrow> Backoff \<Rightarrow> read_result \<Rightarrow> 'a world
     \<Rightarrow> (read_result outcome \<times> 'a world) option"
  fix s3 :: "'a s3svc" and s3tr :: "'b s3Source_scheme" and hdr b r and w :: "'a world" and y
  assume IH: "\<And>s3 s3tr hdr b r w y. f s3 s3tr hdr b r w = Some y \<Longrightarrow>
      \<not> (gate_free s3tr w \<and> isConnReset (fst (snd r)) \<and>
            (\<forall>k. resets_body (length (snd (snd r))) (response_at s3 s3tr hdr (requests w + k))))"
  assume body: "(if isConnReset (fst (snd r)) then
        (case Duration s3 b of
           (dur, b') \<Rightarrow>
             (case read s3 s3tr (snd (snd r)) hdr
                     (w\<lparr>events := events w @ [LogRetry dur, Sleep dur]\<rparr>) of
                (Returned r', w') \<Rightarrow> f s3 s3tr hdr b' r' w'
              | (Panicked x, w') \<Rightarrow> Some (Panicked x, w')
              | (Blocked, w') \<Rightarrow> Some (Blocked, w')))
      else Some (Returned r, w)) = Some y"
  show "\<not> (gate_free s3tr w \<and> isConnReset (fst (snd r)) \<and>
            (\<forall>k. resets_body (length (snd (snd r))) (response_at s3 s3tr hdr (requests w + k))))"
  proof
    assume a: "gate_free s3tr w \<and> isConnReset (fst (snd r)) \<and>
            (\<forall>k. resets_body (length (snd (snd r))) (response_at s3 s3tr hdr (requests w + k)))"
    let ?d = "ForAttempt s3 b"
    let ?w1 = "w\<lparr>events := events w @ [LogRetry ?d, Sleep ?d]\<rparr>"
    have gf: "gate_free s3tr ?w1" using a gate_free_cong [of ?w1 w s3tr] by simp
    from read_facts [OF gf, of s3 "snd (snd r)" hdr]
    obtain out w1 where rd: "read s3 s3tr (snd (snd r)) hdr ?w1 = (out, w1)"
       "requests w1 = requests w + 1" "readRl_len w1 = readRl_len w"
       "reset_outcome out \<longleftrightarrow> resets_body (length (snd (snd r))) (response_at s3 s3tr hdr (requests w))"
       "\<forall>n e p'. out = Returned (n, e, p') \<longrightarrow> length p' = length (snd (snd r))"
      by auto
    from a have "resets_body (length (snd (snd r))) (response_at s3 s3tr hdr (requests w + 0))" by blast
    with rd(4) have "reset_outcome out" by simp
    then obtain r' where out: "out = Returned r'" and cr: "isConnReset (fst (snd r'))"
      by (cases out) auto
    from rd(5) out have len: "length (snd (snd r')) = length (snd (snd r))"
      by (cases r') auto
    have gf1: "gate_free s3tr w1" using a rd(3) gate_free_cong [of w1 w s3tr] by simp
    have all: "\<forall>k. resets_body (length (snd (snd r'))) (response_at s3 s3tr hdr (requests w1 + k))"
    proof
      fix k
      from a have "resets_body (length (snd (snd r))) (response_at s3 s3tr hdr (requests w + Suc k))" by blast
      then show "resets_body (length (snd (snd r'))) (response_at s3 s3tr hdr (requests w1 + k))"
        using rd(2) len by simp
    qed
    from body a rd(1) out have "f s3 s3tr hdr (b\<lparr>attempts := attempts b + 1\<rparr>) r' w1 = Some y"
      by (simp add: Duration_def)
    from IH [OF this] gf1 cr all show False by blast
  qed
qed

lemma retry_loop_forever:
  assumes "gate_free s3tr w" "isConnReset (fst (snd r))"
    "\<forall>k. resets_body (length (snd (snd r))) (response_at s3 s3tr hdr (requests w + k))"
  shows "retry_loop s3 s3tr hdr b r w = None"
proof (cases "retry_loop s3 s3tr hdr b r w")
  case None then show ?thesis .
next
  case (Some y)
  from retry_loop_forever_aux [OF Some] assms show ?thesis by blast
qed




lemma sint_range_end:
  assumes "- (2 ^ 63) \<le> sint off + int (length p) - 1" "sint off + int (length p) - 1 < 2 ^ 63"
  shows "sint (range_end off p) = sint off + int (length p) - 1"
proof -
  have "range_end off p = word_of_int (sint off + int (length p) - 1)"
    by (simp add: range_end_def)
  then have "sint (range_end off p) = signed_take_bit 63 (sint off + int (length p) - 1)"
    by (simp only: sint_sbintrunc') simp
  also have "\<dots> = sint off + int (length p) - 1"
    using assms by (simp add: signed_take_bit_int_eq_self)
  finally show ?thesis .
qed

lemma readRange_stops:
  assumes gf: "gate_free s3tr w"
    and resets: "\<forall>k<N. resets_body (length p) (response_at s3 s3tr hdr (requests w + k))"
    and stop: "\<not> resets_body (length p) (response_at s3 s3tr hdr (requests w + N))"
  shows "\<exists>out w' p' w'' evs. readRange s3 s3tr p hdr w = Some (out, w') \<and>
      (out, w') = read s3 s3tr p' hdr w'' \<and> length p' = length p \<and> requests w'' = requests w + N \<and>
      readRl_len w'' = readRl_len w \<and> (N = 0 \<longrightarrow> p' = p \<and> w'' = w) \<and>
      \<not> reset_outcome out \<and> out \<noteq> Blocked \<and>
      requests w' = requests w + N + 1 \<and> readRl_len w' = readRl_len w \<and> cache w' = cache w \<and>
      events w' = events w @ evs \<and>
      filter is_retry_event evs = retry_events s3 new_backoff N \<and>
      filter is_put evs = [] \<and>
      filter is_request evs = replicate (Suc N) (Request (request_input s3 s3tr hdr)) \<and>
      filter is_gate_event evs = concat (replicate (Suc N) (if readRl s3tr = None then [] else [Acquire, Release]))"
proof -
  from read_facts [OF gf, of s3 p hdr]
  obtain out w1 evs where rd: "read s3 s3tr p hdr w = (out, w1)" "out \<noteq> Blocked"
     "requests w1 = requests w + 1" "readRl_len w1 = readRl_len w" "cache w1 = cache w"
     "events w1 = events w @ evs"
     "filter is_retry_event evs = []" "filter is_put evs = []"
     "filter is_request evs = [Request (request_input s3 s3tr hdr)]"
     "filter is_gate_event evs = (if readRl s3tr = None then [] else [Acquire, Release])"
     "reset_outcome out \<longleftrightarrow> resets_body (length p) (response_at s3 s3tr hdr (requests w))"
     "\<forall>n e p'. out = Returned (n, e, p') \<longrightarrow> length p' = length p"
    by auto
  show ?thesis
  proof (cases N)
    case 0
    with stop rd(11) have nr: "\<not> reset_outcome out" by simp
    have rr: "readRange s3 s3tr p hdr w = Some (out, w1)"
      using rd(1,2) nr by (cases out) (simp_all add: readRange_def)
    show ?thesis
    proof (rule exI [of _ out], rule exI [of _ w1], rule exI [of _ p], rule exI [of _ w],
         rule exI [of _ evs], intro conjI)
      show "readRange s3 s3tr p hdr w = Some (out, w1)" by (fact rr)
      show "(out, w1) = read s3 s3tr p hdr w" using rd(1) by simp
      show "filter is_retry_event evs = retry_events s3 new_backoff N"
        using rd(7) 0 by (simp add: retry_events_def)
      show "filter is_request evs = replicate (Suc N) (Request (request_input s3 s3tr hdr))"
        using rd(9) 0 by simp
      show "filter is_gate_event evs = concat (replicate (Suc N) (if readRl s3tr = None then [] else [Acquire, Release]))"
        using rd(10) 0 by simp
    qed (use 0 rd nr in simp_all)
  next
    case (Suc M)
    from resets Suc have "resets_body (length p) (response_at s3 s3tr hdr (requests w + 0))" by blast
    with rd(11) have "reset_outcome out" by simp
    then obtain r' where out: "out = Returned r'" and cr: "isConnReset (fst (snd r'))"
      by (cases out) auto
    from rd(12) out have len: "length (snd (snd r')) = length p"
      by (cases r') auto
    have gf1: "gate_free s3tr w1" using gf rd(4) gate_free_cong [of w1 w s3tr] by simp
    have a: "\<forall>k<M. resets_body (length p) (response_at s3 s3tr hdr (requests w1 + k))"
    proof (intro allI impI)
      fix k assume "k < M"
      then have "Suc k < N" using Suc by simp
      with resets have "resets_body (length p) (response_at s3 s3tr hdr (requests w + Suc k))" by blast
      then show "resets_body (length p) (response_at s3 s3tr hdr (requests w1 + k))" using rd(3) by simp
    qed
    have b: "\<not> resets_body (length p) (response_at s3 s3tr hdr (requests w1 + M))"
      using stop rd(3) Suc by simp
    from retry_loop_stops [OF gf1 cr len a b, of new_backoff]
    obtain out' w' p' w'' evs' where ih:
      "retry_loop s3 s3tr hdr new_backoff r' w1 = Some (out', w')"
      "(out', w') = read s3 s3tr p' hdr w''" "length p' = length p" "requests w'' = requests w1 + M"
      "readRl_len w'' = readRl_len w1"
      "\<not> reset_outcome out'" "out' \<noteq> Blocked"
      "requests w' = requests w1 + M + 1" "readRl_len w' = readRl_len w1" "cache w' = cache w1"
      "events w' = events w1 @ evs'"
      "filter is_retry_event evs' = retry_events s3 new_backoff (Suc M)"
      "filter is_put evs' = []"
      "filter is_request evs' = replicate (Suc M) (Request (request_input s3 s3tr hdr))"
      "filter is_gate_event evs' = concat (replicate (Suc M) (if readRl s3tr = None then [] else [Acquire, Release]))"
      by blast
    have rr: "readRange s3 s3tr p hdr w = Some (out', w')"
      using rd(1) out cr ih(1) by (simp add: readRange_def)
    show ?thesis
    proof (rule exI [of _ out'], rule exI [of _ w'], rule exI [of _ p'], rule exI [of _ w''],
         rule exI [of _ "evs @ evs'"], intro conjI)
      show "readRange s3 s3tr p hdr w = Some (out', w')" by (fact rr)
      show "(out', w') = read s3 s3tr p' hdr w''" by (fact ih(2))
      show "length p' = length p" by (fact ih(3))
      show "requests w'' = requests w + N" using ih(4) rd(3) Suc by simp
      show "readRl_len w'' = readRl_len w" using ih(5) rd(4) by simp
      show "N = 0 \<longrightarrow> p' = p \<and> w'' = w" using Suc by simp
      show "\<not> reset_outcome out'" by (fact ih(6))
      show "out' \<noteq> Blocked" by (fact ih(7))
      show "requests w' = requests w + N + 1" using ih(8) rd(3) Suc by simp
      show "readRl_len w' = readRl_len w" using ih(9) rd(4) by simp
      show "cache w' = cache w" using ih(10) rd(5) by simp
      show "events w' = events w @ evs @ evs'" using ih(11) rd(6) by simp
      show "filter is_retry_event (evs @ evs') = retry_events s3 new_backoff N"
        using rd(7) ih(12) Suc by simp
      show "filter is_put (evs @ evs') = []" using rd(8) ih(13) by simp
      show "filter is_request (evs @ evs') = replicate (Suc N) (Request (request_input s3 s3tr hdr))"
        using rd(9) ih(14) Suc by simp
      show "filter is_gate_event (evs @ evs')
          = concat (replicate (Suc N) (if readRl s3tr = None then [] else [Acquire, Release]))"
        using rd(10) ih(15) Suc by simp
    qed
  qed
qed

lemma readRange_forever:
  assumes gf: "gate_free s3tr w"
    and resets: "\<forall>k. resets_body (length p) (response_at s3 s3tr hdr (requests w + k))"
  shows "readRange s3 s3tr p hdr w = None"
proof -
  from read_facts [OF gf, of s3 p hdr]
  obtain out w1 where rd: "read s3 s3tr p hdr w = (out, w1)"
     "requests w1 = requests w + 1" "readRl_len w1 = readRl_len w"
     "reset_outcome out \<longleftrightarrow> resets_body (length p) (response_at s3 s3tr hdr (requests w))"
     "\<forall>n e p'. out = Returned (n, e, p') \<longrightarrow> length p' = length p"
    by auto
  from resets have "resets_body (length p) (response_at s3 s3tr hdr (requests w + 0))" by blast
  with rd(4) have "reset_outcome out" by simp
  then obtain r' where out: "out = Returned r'" and cr: "isConnReset (fst (snd r'))"
    by (cases out) auto
  from rd(5) out have len: "length (snd (snd r')) = length p"
    by (cases r') auto
  have gf1: "gate_free s3tr w1" using gf rd(3) gate_free_cong [of w1 w s3tr] by simp
  have all: "\<forall>k. resets_body (length (snd (snd r'))) (response_at s3 s3tr hdr (requests w1 + k))"
  proof
    fix k
    from resets have "resets_body (length p) (response_at s3 s3tr hdr (requests w + Suc k))" by blast
    then show "resets_body (length (snd (snd r'))) (response_at s3 s3tr hdr (requests w1 + k))"
      using rd(2) len by simp
  qed
  from retry_loop_forever [OF gf1 cr all, of new_backoff]
  show ?thesis using rd(1) out cr by (simp add: readRange_def)
qed




lemma read_outcome:
  assumes "gate_free s3tr w"
  shows "fst (read s3 s3tr p hdr w) =
     (case response_at s3 s3tr hdr (requests w) of
        GetErr err \<Rightarrow> Panicked (PanicError err)
      | GetOk None b \<Rightarrow> Panicked NilDereference
      | GetOk (Some ContentLength) b \<Rightarrow>
          if ContentLength \<noteq> int (length p) then Panicked PanicFalse else Returned (ReadFull b p))"
proof -
  have rq: "fst (read_request s3 s3tr p hdr w0) =
     (case response_at s3 s3tr hdr (requests w0) of
        GetErr err \<Rightarrow> Panicked (PanicError err)
      | GetOk None b \<Rightarrow> Panicked NilDereference
      | GetOk (Some ContentLength) b \<Rightarrow>
          if ContentLength \<noteq> int (length p) then Panicked PanicFalse else Returned (ReadFull b p))"
    for w0
    by (auto simp: read_request_def response_at_def Let_def
        split: s3_response.splits option.splits prod.splits)
  show ?thesis
  proof (cases "readRl s3tr")
    case None
    then show ?thesis by (simp add: read_def rq)
  next
    case (Some c)
    with assms have "\<not> c \<le> readRl_len w" by (simp add: gate_free_def)
    with Some rq [of "w\<lparr>readRl_len := readRl_len w + 1, events := events w @ [Acquire]\<rparr>"]
    show ?thesis by (auto simp add: read_def split: prod.splits)
  qed
qed

lemma read_gate_trace:
  assumes "readRl s3tr = Some capacity" "readRl_len w < capacity"
  shows "\<exists>r w' mid. read s3 s3tr p hdr w = (r, w') \<and> r \<noteq> Blocked \<and>
      events w' = events w @ [Acquire, Request (request_input s3 s3tr hdr)] @ mid @ [Release] \<and>
      filter is_gate_event mid = [] \<and> filter is_request mid = [] \<and>
      readRl_len w' = readRl_len w \<and> requests w' = requests w + 1"
proof -
  let ?w1 = "w\<lparr>readRl_len := readRl_len w + 1, events := events w @ [Acquire]\<rparr>"
  from read_request_facts [of s3 s3tr p hdr ?w1]
  obtain r w' evs where rr: "read_request s3 s3tr p hdr ?w1 = (r, w')" "r \<noteq> Blocked"
     "requests w' = requests w + 1" "readRl_len w' = readRl_len w + 1"
     "events w' = events w @ Acquire # Request (request_input s3 s3tr hdr) # evs"
     "filter is_gate_event evs = []" "filter is_request evs = []"
    by auto
  from assms have "\<not> capacity \<le> readRl_len w" by simp
  with assms(1) rr show ?thesis by (simp add: read_def)
qed

lemma retry_loop_gate:
  assumes "retry_loop s3 s3tr hdr b r w = Some y"
  shows "gate_free s3tr w \<longrightarrow> fst y \<noteq> Blocked \<and> readRl_len (snd y) = readRl_len w"
proof (rule retry_loop.raw_induct [where P = "\<lambda>s3 s3tr hdr b r w y.
            gate_free s3tr w \<longrightarrow> fst y \<noteq> Blocked \<and> readRl_len (snd y) = readRl_len w", OF _ assms])
  fix f :: "'a s3svc \<Rightarrow> 'b s3Source_scheme \<Rightarrow> string \<Rightarrow> Backoff \<Rightarrow> read_result \<Rightarrow> 'a world
     \<Rightarrow> (read_result outcome \<times> 'a world) option"
  fix s3 :: "'a s3svc" and s3tr :: "'b s3Source_scheme" and hdr b r and w :: "'a world" and y
  assume IH: "\<And>s3 s3tr hdr b r w y. f s3 s3tr hdr b r w = Some y \<Longrightarrow>
      gate_free s3tr w \<longrightarrow> fst y \<noteq> Blocked \<and> readRl_len (snd y) = readRl_len w"
  assume body: "(if isConnReset (fst (snd r)) then
        (case Duration s3 b of
           (dur, b') \<Rightarrow>
             (case read s3 s3tr (snd (snd r)) hdr
                     (w\<lparr>events := events w @ [LogRetry dur, Sleep dur]\<rparr>) of
                (Returned r', w') \<Rightarrow> f s3 s3tr hdr b' r' w'
              | (Panicked x, w') \<Rightarrow> Some (Panicked x, w')
              | (Blocked, w') \<Rightarrow> Some (Blocked, w')))
      else Some (Returned r, w)) = Some y"
  show "gate_free s3tr w \<longrightarrow> fst y \<noteq> Blocked \<and> readRl_len (snd y) = readRl_len w"
  proof
    assume gfw: "gate_free s3tr w"
    show "fst y \<noteq> Blocked \<and> readRl_len (snd y) = readRl_len w"
    proof (cases "isConnReset (fst (snd r))")
      case False
      with body show ?thesis by auto
    next
      case True
      let ?d = "ForAttempt s3 b"
      let ?w1 = "w\<lparr>events := events w @ [LogRetry ?d, Sleep ?d]\<rparr>"
      have gf: "gate_free s3tr ?w1" using gfw gate_free_cong [of ?w1 w s3tr] by simp
      from read_facts [OF gf, of s3 "snd (snd r)" hdr]
      obtain out w1 where rd: "read s3 s3tr (snd (snd r)) hdr ?w1 = (out, w1)" "out \<noteq> Blocked"
         "readRl_len w1 = readRl_len w"
        by auto
      have gf1: "gate_free s3tr w1" using gfw rd(3) gate_free_cong [of w1 w s3tr] by simp
      show ?thesis
      proof (cases out)
        case (Returned r')
        with body True rd(1) have "f s3 s3tr hdr (b\<lparr>attempts := attempts b + 1\<rparr>) r' w1 = Some y"
          by (simp add: Duration_def)
        from IH [OF this] gf1 rd(3) show ?thesis by simp
      next
        case (Panicked x)
        with body True rd(1) have "y = (Panicked x, w1)" by (simp add: Duration_def)
        with rd(3) show ?thesis by simp
      next
        case Blocked
        with rd(2) show ?thesis by simp
      qed
    qed
  qed
qed

lemma readRange_gate:
  assumes "readRange s3 s3tr p hdr w = Some (out, w')" "gate_free s3tr w"
  shows "out \<noteq> Blocked \<and> readRl_len w' = readRl_len w"
proof -
  from read_facts [OF assms(2), of s3 p hdr]
  obtain r w1 where rd: "read s3 s3tr p hdr w = (r, w1)" "r \<noteq> Blocked"
     "readRl_len w1 = readRl_len w"
    by auto
  have gf1: "gate_free s3tr w1" using assms(2) rd(3) gate_free_cong [of w1 w s3tr] by simp
  show ?thesis
  proof (cases r)
    case (Returned r')
    show ?thesis
    proof (cases "isConnReset (fst (snd r'))")
      case True
      with assms(1) rd(1) Returned have "retry_loop s3 s3tr hdr new_backoff r' w1 = Some (out, w')"
        by (simp add: readRange_def)
      from retry_loop_gate [OF this] gf1 rd(3) show ?thesis by simp
    next
      case False
      with assms(1) rd(1) Returned rd(3) show ?thesis by (auto simp: readRange_def)
    qed
  next
    case (Panicked x)
    with assms(1) rd(1) rd(3) show ?thesis by (auto simp: readRange_def)
  next
    case Blocked
    with rd(2) show ?thesis by simp
  qed
qed




lemma retry_events_new_backoff:
  "retry_events s3 new_backoff N = concat (map (\<lambda>k. [LogRetry (delay s3 k), Sleep (delay s3 k)]) [0..<N])"
  by (simp add: retry_events_def delay_def new_backoff_def)

subsection \<open>Retrying a ranged read\<close>

text \<open>
  Claim C1, as amended. A ranged read starts at a free gate. If the bodies of the first
  \<open>N\<close> responses are reset by the peer (the request itself succeeded, with the content
  length asked for) and the response after them is anything else, \<open>readRange\<close> returns
  what that last attempt returns, after exactly \<open>N\<close> retries: \<open>N + 1\<close> requests were
  sent, all with the same input, and the trace holds, for the retries \<open>0 .. N - 1\<close> in
  order, the log line with the delay followed by the sleep of that delay, the delay being
  what the backoff library computes for that attempt from the value configured with
  \<open>Min\<close> 128 microseconds, \<open>Max\<close> 1024 milliseconds, factor 2 and jitter. With
  \<open>N = 0\<close> the result is that of the first attempt and nothing is logged or slept: an
  error that is not a reset (a short body among them) comes back at once. If every body
  is reset, \<open>readRange\<close> never returns. An error of the request itself, a connection
  reset included, is not returned and not retried: the attempt panics with it.
\<close>

theorem readRange_retries_body_resets:
  assumes "gate_free s3tr w"
  shows "(\<forall>N. (\<forall>k<N. resets_body (length p) (response_at s3 s3tr hdr (requests w + k))) \<and>
              \<not> resets_body (length p) (response_at s3 s3tr hdr (requests w + N)) \<longrightarrow>
           (\<exists>out w' p' w''. readRange s3 s3tr p hdr w = Some (out, w') \<and>
              (out, w') = read s3 s3tr p' hdr w'' \<and> length p' = length p \<and>
              requests w'' = requests w + N \<and> (N = 0 \<longrightarrow> p' = p \<and> w'' = w) \<and>
              \<not> reset_outcome out \<and> requests w' = requests w + N + 1 \<and>
              filter is_retry_event (new_events w w')
                = concat (map (\<lambda>k. [LogRetry (delay s3 k), Sleep (delay s3 k)]) [0..<N]) \<and>
              filter is_request (new_events w w')
                = replicate (N + 1) (Request (request_input s3 s3tr hdr))))
       \<and> ((\<forall>k. resets_body (length p) (response_at s3 s3tr hdr (requests w + k))) \<longrightarrow>
            readRange s3 s3tr p hdr w = None)
       \<and> (\<forall>err. response_at s3 s3tr hdr (requests w) = GetErr err \<longrightarrow>
            (\<exists>w'. readRange s3 s3tr p hdr w = Some (Panicked (PanicError err), w') \<and>
                  requests w' = requests w + 1 \<and> filter is_retry_event (new_events w w') = []))
       \<and> new_backoff = \<lparr>Min = 128000, Max = 1024000000, Factor = 2, Jitter = True, attempts = 0\<rparr>"
proof (intro conjI allI impI)
  fix N
  assume h: "(\<forall>k<N. resets_body (length p) (response_at s3 s3tr hdr (requests w + k))) \<and>
              \<not> resets_body (length p) (response_at s3 s3tr hdr (requests w + N))"
  from readRange_stops [OF assms conjunct1 [OF h] conjunct2 [OF h]]
  obtain out w' p' w'' evs where st: "readRange s3 s3tr p hdr w = Some (out, w')"
      "(out, w') = read s3 s3tr p' hdr w''" "length p' = length p" "requests w'' = requests w + N"
      "N = 0 \<longrightarrow> p' = p \<and> w'' = w"
      "\<not> reset_outcome out" "requests w' = requests w + N + 1"
      "events w' = events w @ evs"
      "filter is_retry_event evs = retry_events s3 new_backoff N"
      "filter is_request evs = replicate (Suc N) (Request (request_input s3 s3tr hdr))"
    by blast
  from st(8) have ne: "new_events w w' = evs" by (simp add: new_events_def)
  show "\<exists>out w' p' w''. readRange s3 s3tr p hdr w = Some (out, w') \<and>
              (out, w') = read s3 s3tr p' hdr w'' \<and> length p' = length p \<and>
              requests w'' = requests w + N \<and> (N = 0 \<longrightarrow> p' = p \<and> w'' = w) \<and>
              \<not> reset_outcome out \<and> requests w' = requests w + N + 1 \<and>
              filter is_retry_event (new_events w w')
                = concat (map (\<lambda>k. [LogRetry (delay s3 k), Sleep (delay s3 k)]) [0..<N]) \<and>
              filter is_request (new_events w w')
                = replicate (N + 1) (Request (request_input s3 s3tr hdr))"
  proof (rule exI [of _ out], rule exI [of _ w'], rule exI [of _ p'], rule exI [of _ w''], intro conjI)
    show "filter is_retry_event (new_events w w')
                = concat (map (\<lambda>k. [LogRetry (delay s3 k), Sleep (delay s3 k)]) [0..<N])"
      using st(9) ne by (simp add: retry_events_new_backoff)
    show "filter is_request (new_events w w') = replicate (N + 1) (Request (request_input s3 s3tr hdr))"
      using st(10) ne by simp
  qed (fact st)+
next
  assume "\<forall>k. resets_body (length p) (response_at s3 s3tr hdr (requests w + k))"
  then show "readRange s3 s3tr p hdr w = None"
    by (rule readRange_forever [OF assms])
next
  fix err
  assume ge: "response_at s3 s3tr hdr (requests w) = GetErr err"
  then have a: "\<forall>k<0. resets_body (length p) (response_at s3 s3tr hdr (requests w + k))"
    and b: "\<not> resets_body (length p) (response_at s3 s3tr hdr (requests w + 0))"
    by simp_all
  from readRange_stops [OF assms a b]
  obtain out w' p' w'' evs where st: "readRange s3 s3tr p hdr w = Some (out, w')"
      "(out, w') = read s3 s3tr p' hdr w''" "p' = p \<and> w'' = w"
      "requests w' = requests w + 0 + 1"
      "events w' = events w @ evs"
      "filter is_retry_event evs = retry_events s3 new_backoff 0"
    by blast
  from st(2,3) have "out = fst (read s3 s3tr p hdr w)" by (metis fst_conv)
  with read_outcome [OF assms, of s3 p hdr] ge have "out = Panicked (PanicError err)" by simp
  moreover from st(5) have "new_events w w' = evs" by (simp add: new_events_def)
  ultimately show "\<exists>w'. readRange s3 s3tr p hdr w = Some (Panicked (PanicError err), w') \<and>
                  requests w' = requests w + 1 \<and> filter is_retry_event (new_events w w') = []"
    using st(1,4,6) by (simp add: retry_events_def)
next
  show "new_backoff = \<lparr>Min = 128000, Max = 1024000000, Factor = 2, Jitter = True, attempts = 0\<rparr>"
    by (simp add: new_backoff_def Microsecond_def Millisecond_def)
qed

lemma demo_gate_free: "gate_free demo_source demo_world"
  by (simp add: gate_free_def demo_source_def demo_world_def)

lemma two_resets_resp: "response_at (demo_s3 two_resets) demo_source hdr k = two_resets k"
  by (simp add: response_at_def demo_s3_def)


theorem readRange_retries_body_resets_witness:
  "gate_free demo_source demo_world \<and>
   resets_body 3 (two_resets 0) \<and> resets_body 3 (two_resets 1) \<and> \<not> resets_body 3 (two_resets 2) \<and>
   (\<exists>out w'. readRange (demo_s3 two_resets) demo_source [0, 0, 0] ''bytes=0-2'' demo_world = Some (out, w') \<and>
      \<not> reset_outcome out \<and> requests w' = 3 \<and>
      filter is_retry_event (new_events demo_world w')
        = [LogRetry 128000, Sleep 128000, LogRetry 256000, Sleep 256000]) \<and>
   readRange (demo_s3 (\<lambda>k. GetOk (Some 3) (Body [7] reset_error))) demo_source [0, 0, 0] ''bytes=0-2''
      demo_world = None"
proof -
  have r0: "resets_body 3 (two_resets 0)" and r1: "resets_body 3 (two_resets 1)"
    and r2: "\<not> resets_body 3 (two_resets 2)"
    by (simp_all add: two_resets_def reset_error_def)
  have a: "\<forall>k<2. resets_body (length [0, 0, 0 :: byte])
      (response_at (demo_s3 two_resets) demo_source ''bytes=0-2'' (requests demo_world + k))"
    by (simp add: two_resets_resp demo_world_def two_resets_def reset_error_def)
  have b: "\<not> resets_body (length [0, 0, 0 :: byte])
      (response_at (demo_s3 two_resets) demo_source ''bytes=0-2'' (requests demo_world + 2))"
    by (simp add: two_resets_resp demo_world_def two_resets_def)
  have d: "delay (demo_s3 g) 0 = 128000" "delay (demo_s3 g) (Suc 0) = 256000" for g
    by (simp_all add: delay_def demo_s3_def new_backoff_def Microsecond_def Millisecond_def)
  from readRange_retries_body_resets [OF demo_gate_free, of "[0, 0, 0]" "demo_s3 two_resets" "''bytes=0-2''"]
  have "(\<forall>k<2. resets_body (length [0, 0, 0 :: byte])
          (response_at (demo_s3 two_resets) demo_source ''bytes=0-2'' (requests demo_world + k))) \<and>
        \<not> resets_body (length [0, 0, 0 :: byte])
          (response_at (demo_s3 two_resets) demo_source ''bytes=0-2'' (requests demo_world + 2)) \<longrightarrow>
        (\<exists>out w' p' w''. readRange (demo_s3 two_resets) demo_source [0, 0, 0] ''bytes=0-2'' demo_world = Some (out, w') \<and>
              (out, w') = read (demo_s3 two_resets) demo_source p' ''bytes=0-2'' w'' \<and> length p' = length [0, 0, 0 :: byte] \<and>
              requests w'' = requests demo_world + 2 \<and> ((2::nat) = 0 \<longrightarrow> p' = [0, 0, 0] \<and> w'' = demo_world) \<and>
              \<not> reset_outcome out \<and> requests w' = requests demo_world + 2 + 1 \<and>
              filter is_retry_event (new_events demo_world w')
                = concat (map (\<lambda>k. [LogRetry (delay (demo_s3 two_resets) k), Sleep (delay (demo_s3 two_resets) k)]) [0..<2]) \<and>
              filter is_request (new_events demo_world w')
                = replicate (2 + 1) (Request (request_input (demo_s3 two_resets) demo_source ''bytes=0-2'')))"
    by blast
  with a b obtain out w' where
    "readRange (demo_s3 two_resets) demo_source [0, 0, 0] ''bytes=0-2'' demo_world = Some (out, w')"
    "\<not> reset_outcome out" "requests w' = requests demo_world + 2 + 1"
    "filter is_retry_event (new_events demo_world w')
       = concat (map (\<lambda>k. [LogRetry (delay (demo_s3 two_resets) k), Sleep (delay (demo_s3 two_resets) k)]) [0..<2])"
    by blast
  then have ex: "\<exists>out w'. readRange (demo_s3 two_resets) demo_source [0, 0, 0] ''bytes=0-2'' demo_world = Some (out, w') \<and>
      \<not> reset_outcome out \<and> requests w' = 3 \<and>
      filter is_retry_event (new_events demo_world w')
        = [LogRetry 128000, Sleep 128000, LogRetry 256000, Sleep 256000]"
    by (simp add: demo_world_def d numeral_2_eq_2)
  have "\<forall>k. resets_body (length [0, 0, 0 :: byte])
      (response_at (demo_s3 (\<lambda>k. GetOk (Some 3) (Body [7] reset_error))) demo_source ''bytes=0-2'' (requests demo_world + k))"
    by (simp add: response_at_def demo_s3_def reset_error_def)
  with readRange_retries_body_resets [OF demo_gate_free, of "[0, 0, 0]"
      "demo_s3 (\<lambda>k. GetOk (Some 3) (Body [7] reset_error))" "''bytes=0-2''"]
  have "readRange (demo_s3 (\<lambda>k. GetOk (Some 3) (Body [7] reset_error))) demo_source [0, 0, 0] ''bytes=0-2''
      demo_world = None"
    by blast
  with demo_gate_free r0 r1 r2 ex show ?thesis by blast
qed

text \<open>
  Claim C1 as stated fails where the request itself, rather than the reading of the body,
  ends with the connection reset: \<open>isConnReset\<close> holds of the error, yet
  \<open>d.PanicIfError\<close> panics with it after one request, with no log line and no sleep.
\<close>

theorem request_reset_not_retried:
  "isConnReset (Some reset_error) \<and>
   readRange (demo_s3 (\<lambda>k. GetErr reset_error)) demo_source [0, 0, 0] ''bytes=0-2'' demo_world
     = Some (Panicked (PanicError reset_error),
         \<lparr>requests = 1, readRl_len = 0,
          events = [Acquire, Request \<lparr>Bucket = ''b'', Key = ''t'', Range = ''bytes=0-2''\<rparr>, Release],
          cache = (\<lambda>a. None)\<rparr>)"
  by (simp add: readRange_def read_def read_request_def demo_s3_def demo_source_def demo_world_def
      request_input_def reset_error_def ECONNRESET_def Let_def)




lemma tail_header: "s3RangePrefix @ ''=-'' @ fmt_d (uint sz) = ''bytes=-'' @ digits (unat sz)"
  by (simp add: s3RangePrefix_def fmt_d_def)

lemma newS3TableReader_hit:
  assumes "indexCache" "cache w hsh = Some idx"
  shows "newS3TableReader s3 bkt hsh chunkCount indexCache rl w
     = Some (finish_reader s3 \<lparr>bucket = bkt, h = hsh, readRl = rl\<rparr> chunkCount idx w)"
  using assms by (simp add: newS3TableReader_def)

lemma snd_finish_reader: "snd (finish_reader s3 source chunkCount idx w) = w"
  by (simp add: finish_reader_def)

lemma fst_finish_reader:
  "fst (finish_reader s3 source chunkCount idx w) =
     (if chunkCount = chunkCount_of s3 idx
      then Returned (s3Source.extend source \<lparr>index = idx, blockSize = s3BlockSize\<rparr>)
      else Panicked PanicFalse)"
  by (simp add: finish_reader_def)

lemma newS3TableReader_miss:
  assumes miss: "indexCache \<longrightarrow> cache w hsh = None"
    and rr: "readRange s3 \<lparr>bucket = bkt, h = hsh, readRl = rl\<rparr>
               (replicate (unat (indexSize s3 chunkCount + footerSize s3)) 0)
               (s3RangePrefix @ ''=-'' @ fmt_d (uint (indexSize s3 chunkCount + footerSize s3))) w
             = Some (out, w1)"
  shows "\<exists>out' w' puts. newS3TableReader s3 bkt hsh chunkCount indexCache rl w = Some (out', w') \<and>
      requests w' = requests w1 \<and> readRl_len w' = readRl_len w1 \<and>
      events w' = events w1 @ puts \<and> filter is_put puts = puts \<and> length puts \<le> 1 \<and>
      (\<forall>rd. out' = Returned rd \<longrightarrow>
         (\<exists>n buff'. out = Returned (n, None, buff') \<and> parseTableIndex s3 buff' = Inr (index rd)) \<and>
         chunkCount_of s3 (index rd) = chunkCount \<and>
         puts = (if indexCache then [CachePut hsh (index rd)] else []) \<and>
         cache w' = (if indexCache then (cache w1)(hsh \<mapsto> index rd) else cache w1)) \<and>
      (\<forall>n buff' idx. out = Returned (n, None, buff') \<and>
           indexSize s3 chunkCount + footerSize s3 = of_nat n \<and> parseTableIndex s3 buff' = Inr idx \<longrightarrow>
           out' = fst (finish_reader s3 \<lparr>bucket = bkt, h = hsh, readRl = rl\<rparr> chunkCount idx w1) \<and>
           puts = (if indexCache then [CachePut hsh idx] else []))"
proof -
  from miss have c: "(if indexCache then cache w hsh else None) = None" by simp
  show ?thesis
  proof (cases out)
    case (Panicked x)
    with c rr show ?thesis by (simp add: newS3TableReader_def Let_def)
  next
    case Blocked
    with c rr show ?thesis by (simp add: newS3TableReader_def Let_def)
  next
    case (Returned r)
    obtain n err buff' where r: "r = (n, err, buff')" by (cases r)
    show ?thesis
    proof (cases err)
      case (Some e)
      with c rr Returned r show ?thesis by (simp add: newS3TableReader_def Let_def)
    next
      case None
      show ?thesis
      proof (cases "indexSize s3 chunkCount + footerSize s3 = of_nat n")
        case False
        with c rr Returned r None show ?thesis by (simp add: newS3TableReader_def Let_def)
      next
        case True
        show ?thesis
        proof (cases "parseTableIndex s3 buff'")
          case (Inl x)
          with c rr Returned r None True show ?thesis by (simp add: newS3TableReader_def Let_def)
        next
          case (Inr idx)
          with c rr Returned r None True show ?thesis
            by (simp add: newS3TableReader_def Let_def finish_reader_def s3Source.extend_def)
        qed
      qed
    qed
  qed
qed



subsection \<open>The range header of \<open>ReadAt\<close>\<close>

text \<open>
  Claim C9, as amended. For every offset \<open>off\<close> and every buffer of length
  \<open>n \<ge> 1\<close> such that \<open>off + n - 1\<close> is at most \<open>2^63 - 1\<close>, the largest
  \<open>int64\<close>, the header \<open>ReadAt\<close> hands to \<open>readRange\<close>, and with it the
  \<open>Range\<close> of every request sent, is exactly \<open>bytes=<off>-<end>\<close> with
  \<open>end = off + n - 1\<close>, both printed in decimal: the inclusive range of exactly
  \<open>n\<close> bytes.
\<close>

theorem ReadAt_range_header:
  assumes "1 \<le> length p" "sint off + int (length p) - 1 < 2 ^ 63"
  shows "ReadAt_header p off
           = ''bytes='' @ fmt_d (sint off) @ ''-'' @ fmt_d (sint off + int (length p) - 1)
       \<and> ReadAt s3 s3tr p off w = readRange s3 s3tr p (ReadAt_header p off) w
       \<and> Range (request_input s3 s3tr (ReadAt_header p off)) = ReadAt_header p off
       \<and> (sint off + int (length p) - 1) - sint off + 1 = int (length p)"
proof -
  have "- (2 ^ 63) \<le> sint off" using sint_ge [of off] by simp
  with assms(1) have "- (2 ^ 63) \<le> sint off + int (length p) - 1" by simp
  from sint_range_end [OF this assms(2)] show ?thesis
    by (simp add: ReadAt_header_def ReadAt_def s3RangePrefix_def request_input_def)
qed

theorem ReadAt_range_header_witness:
  "1 \<le> length [0, 0, 0 :: byte] \<and> sint (5 :: 64 word) + int (length [0, 0, 0 :: byte]) - 1 < 2 ^ 63 \<and>
   ReadAt_header [0, 0, 0] 5 = ''bytes=5-7''"
proof -
  have a: "1 \<le> length [0, 0, 0 :: byte]" by simp
  have b: "sint (5 :: 64 word) + int (length [0, 0, 0 :: byte]) - 1 < 2 ^ 63" by simp
  from ReadAt_range_header [OF a b]
  have "ReadAt_header [0, 0, 0] 5
     = ''bytes='' @ fmt_d (sint (5 :: 64 word)) @ ''-'' @ fmt_d (sint (5 :: 64 word) + int (length [0, 0, 0 :: byte]) - 1)"
    by blast
  then have "ReadAt_header [0, 0, 0] 5 = ''bytes=5-7''"
    by (simp add: fmt_d_def)
  with a b show ?thesis by blast
qed

text \<open>
  Claim C9 as stated fails at the top of the \<open>int64\<close> range: for the offset
  \<open>2^63 - 1\<close> and a buffer of two bytes, \<open>off + 2 - 1\<close> wraps around to
  \<open>- 2^63\<close>, and the header names that end instead of \<open>off + n - 1\<close>.
\<close>

theorem ReadAt_range_end_wraps:
  "ReadAt_header [0, 0] 0x7FFFFFFFFFFFFFFF = ''bytes=9223372036854775807--9223372036854775808'' \<and>
   ReadAt_header [0, 0] 0x7FFFFFFFFFFFFFFF
     \<noteq> ''bytes='' @ fmt_d (sint (0x7FFFFFFFFFFFFFFF :: 64 word)) @ ''-''
         @ fmt_d (sint (0x7FFFFFFFFFFFFFFF :: 64 word) + int (length [0, 0 :: byte]) - 1)"
  by (simp add: ReadAt_header_def range_end_def s3RangePrefix_def fmt_d_def)

subsection \<open>The rate-limit gate\<close>

text \<open>
  Claim C5. With a rate-limit channel configured, an attempt that finds a free slot takes
  exactly one slot before it sends its request and gives it back as its last step,
  whatever the attempt ends with (a result, an error or a panic): the trace of the
  attempt is the acquisition, the request, events that are neither requests nor gate
  events, and the release, and the number of slots taken is afterwards what it was
  before. An attempt that finds the channel full sends nothing. Every \<open>readRange\<close>
  that returns, after any number of retries, leaves the number of slots taken unchanged.
  (Waiting at a full channel for another reader is outside the sequential model.)
\<close>

theorem read_holds_slot_exactly_during_attempt:
  assumes "readRl s3tr = Some capacity"
  shows "(readRl_len w < capacity \<longrightarrow>
           (\<exists>r w' mid. read s3 s3tr p hdr w = (r, w') \<and> r \<noteq> Blocked \<and>
              events w' = events w @ [Acquire, Request (request_input s3 s3tr hdr)] @ mid @ [Release] \<and>
              filter is_gate_event mid = [] \<and> filter is_request mid = [] \<and>
              readRl_len w' = readRl_len w \<and> requests w' = requests w + 1))
       \<and> (capacity \<le> readRl_len w \<longrightarrow> read s3 s3tr p hdr w = (Blocked, w))
       \<and> (\<forall>out w'. readRl_len w < capacity \<and> readRange s3 s3tr p hdr w = Some (out, w') \<longrightarrow>
             out \<noteq> Blocked \<and> readRl_len w' = readRl_len w)"
proof (intro conjI allI impI)
  assume "readRl_len w < capacity"
  from read_gate_trace [OF assms this]
  show "\<exists>r w' mid. read s3 s3tr p hdr w = (r, w') \<and> r \<noteq> Blocked \<and>
              events w' = events w @ [Acquire, Request (request_input s3 s3tr hdr)] @ mid @ [Release] \<and>
              filter is_gate_event mid = [] \<and> filter is_request mid = [] \<and>
              readRl_len w' = readRl_len w \<and> requests w' = requests w + 1" .
next
  assume "capacity \<le> readRl_len w"
  with assms show "read s3 s3tr p hdr w = (Blocked, w)" by (simp add: read_def)
next
  fix out w'
  assume h: "readRl_len w < capacity \<and> readRange s3 s3tr p hdr w = Some (out, w')"
  with assms have gf: "gate_free s3tr w" by (simp add: gate_free_def)
  from readRange_gate [OF conjunct2 [OF h] gf]
  show "out \<noteq> Blocked" and "readRl_len w' = readRl_len w" by simp_all
qed




theorem read_holds_slot_exactly_during_attempt_witness:
  "readRl demo_source = Some 1 \<and> readRl_len demo_world < 1 \<and>
   fst (read (demo_s3 (\<lambda>k. GetErr reset_error)) demo_source [0] ''bytes=0-0'' demo_world)
     = Panicked (PanicError reset_error) \<and>
   (\<exists>r w' mid. read (demo_s3 (\<lambda>k. GetErr reset_error)) demo_source [0] ''bytes=0-0'' demo_world = (r, w') \<and>
      events w' = [Acquire, Request \<lparr>Bucket = ''b'', Key = ''t'', Range = ''bytes=0-0''\<rparr>] @ mid @ [Release] \<and>
      filter is_gate_event mid = [] \<and> readRl_len w' = 0)"
proof -
  have a: "readRl demo_source = Some 1" by (simp add: demo_source_def)
  have b: "readRl_len demo_world < 1" by (simp add: demo_world_def)
  have c: "fst (read (demo_s3 (\<lambda>k. GetErr reset_error)) demo_source [0] ''bytes=0-0'' demo_world)
     = Panicked (PanicError reset_error)"
    by (simp add: read_def read_request_def demo_s3_def demo_source_def demo_world_def Let_def)
  from read_holds_slot_exactly_during_attempt [OF a, of demo_world "demo_s3 (\<lambda>k. GetErr reset_error)" "[0]" "''bytes=0-0''"] b
  have "\<exists>r w' mid. read (demo_s3 (\<lambda>k. GetErr reset_error)) demo_source [0] ''bytes=0-0'' demo_world = (r, w') \<and> r \<noteq> Blocked \<and>
              events w' = events demo_world @ [Acquire, Request (request_input (demo_s3 (\<lambda>k. GetErr reset_error)) demo_source ''bytes=0-0'')] @ mid @ [Release] \<and>
              filter is_gate_event mid = [] \<and> filter is_request mid = [] \<and>
              readRl_len w' = readRl_len demo_world \<and> requests w' = requests demo_world + 1"
    by blast
  then have "\<exists>r w' mid. read (demo_s3 (\<lambda>k. GetErr reset_error)) demo_source [0] ''bytes=0-0'' demo_world = (r, w') \<and>
      events w' = [Acquire, Request \<lparr>Bucket = ''b'', Key = ''t'', Range = ''bytes=0-0''\<rparr>] @ mid @ [Release] \<and>
      filter is_gate_event mid = [] \<and> readRl_len w' = 0"
    by (simp add: demo_world_def request_input_def demo_s3_def demo_source_def) blast
  with a b c show ?thesis by blast
qed

subsection \<open>Integrity faults\<close>

lemma newS3TableReader_parsed:
  assumes miss: "indexCache \<longrightarrow> cache w hsh = None"
    and rr: "readRange s3 \<lparr>bucket = bkt, h = hsh, readRl = rl\<rparr>
               (replicate (unat (indexSize s3 chunkCount + footerSize s3)) 0)
               (s3RangePrefix @ ''=-'' @ fmt_d (uint (indexSize s3 chunkCount + footerSize s3))) w
             = Some (Returned (n, None, buff'), w1)"
    and sz: "indexSize s3 chunkCount + footerSize s3 = of_nat n"
    and parse: "parseTableIndex s3 buff' = Inr idx"
  shows "newS3TableReader s3 bkt hsh chunkCount indexCache rl w
     = Some (finish_reader s3 \<lparr>bucket = bkt, h = hsh, readRl = rl\<rparr> chunkCount idx
          (if indexCache then w1\<lparr>events := events w1 @ [CachePut hsh idx],
                                   cache := (cache w1)(hsh \<mapsto> idx)\<rparr> else w1))"
proof -
  from miss have c: "(if indexCache then cache w hsh else None) = None" by simp
  from c rr sz parse show ?thesis
    by (simp add: newS3TableReader_def Let_def)
qed

text \<open>
  Claim C4. Construction panics when the chunk count of the index differs from the chunk
  count the caller expects, whether the index came from the cache or was read and parsed;
  nothing is sent after the index is there, so the fault is not retried (on the cache
  path the world is left as it was). A ranged read panics when a response declares a
  content length other than the length of the buffer: the request with the mismatch is
  the last one sent, also when it follows \<open>N\<close> retried body resets.
\<close>

theorem integrity_mismatch_is_fatal:
  "(indexCache \<and> cache w hsh = Some idx \<and> chunkCount \<noteq> chunkCount_of s3 idx \<longrightarrow>
       newS3TableReader s3 bkt hsh chunkCount indexCache rl w = Some (Panicked PanicFalse, w))
   \<and> ((indexCache \<longrightarrow> cache w hsh = None) \<and>
       readRange s3 \<lparr>bucket = bkt, h = hsh, readRl = rl\<rparr>
               (replicate (unat (indexSize s3 chunkCount + footerSize s3)) 0)
               (s3RangePrefix @ ''=-'' @ fmt_d (uint (indexSize s3 chunkCount + footerSize s3))) w
             = Some (Returned (n, None, buff'), w1) \<and>
       indexSize s3 chunkCount + footerSize s3 = of_nat n \<and>
       parseTableIndex s3 buff' = Inr idx \<and> chunkCount \<noteq> chunkCount_of s3 idx \<longrightarrow>
       (\<exists>w'. newS3TableReader s3 bkt hsh chunkCount indexCache rl w = Some (Panicked PanicFalse, w') \<and>
             requests w' = requests w1 \<and> filter is_request (new_events w1 w') = []))
   \<and> (gate_free s3tr w0 \<and>
       (\<forall>k<N. resets_body (length p) (response_at s3 s3tr hdr (requests w0 + k))) \<and>
       response_at s3 s3tr hdr (requests w0 + N) = GetOk (Some ContentLength) b \<and>
       ContentLength \<noteq> int (length p) \<longrightarrow>
       (\<exists>w'. readRange s3 s3tr p hdr w0 = Some (Panicked PanicFalse, w') \<and>
             requests w' = requests w0 + N + 1 \<and>
             length (filter is_request (new_events w0 w')) = N + 1))"
proof (intro conjI impI)
  assume "indexCache \<and> cache w hsh = Some idx \<and> chunkCount \<noteq> chunkCount_of s3 idx"
  then show "newS3TableReader s3 bkt hsh chunkCount indexCache rl w = Some (Panicked PanicFalse, w)"
    by (simp add: newS3TableReader_def finish_reader_def)
next
  assume h: "(indexCache \<longrightarrow> cache w hsh = None) \<and>
       readRange s3 \<lparr>bucket = bkt, h = hsh, readRl = rl\<rparr>
               (replicate (unat (indexSize s3 chunkCount + footerSize s3)) 0)
               (s3RangePrefix @ ''=-'' @ fmt_d (uint (indexSize s3 chunkCount + footerSize s3))) w
             = Some (Returned (n, None, buff'), w1) \<and>
       indexSize s3 chunkCount + footerSize s3 = of_nat n \<and>
       parseTableIndex s3 buff' = Inr idx \<and> chunkCount \<noteq> chunkCount_of s3 idx"
  then have miss: "indexCache \<longrightarrow> cache w hsh = None"
    and rr: "readRange s3 \<lparr>bucket = bkt, h = hsh, readRl = rl\<rparr>
               (replicate (unat (indexSize s3 chunkCount + footerSize s3)) 0)
               (s3RangePrefix @ ''=-'' @ fmt_d (uint (indexSize s3 chunkCount + footerSize s3))) w
             = Some (Returned (n, None, buff'), w1)"
    and rest: "indexSize s3 chunkCount + footerSize s3 = of_nat n"
       "parseTableIndex s3 buff' = Inr idx" "chunkCount \<noteq> chunkCount_of s3 idx"
    by blast+
  let ?w2 = "if indexCache then w1\<lparr>events := events w1 @ [CachePut hsh idx],
                                   cache := (cache w1)(hsh \<mapsto> idx)\<rparr> else w1"
  from newS3TableReader_parsed [OF miss rr rest(1,2)] rest(3)
  have "newS3TableReader s3 bkt hsh chunkCount indexCache rl w = Some (Panicked PanicFalse, ?w2)"
    by (simp add: finish_reader_def)
  moreover have "requests ?w2 = requests w1" by simp
  moreover have "filter is_request (new_events w1 ?w2) = []" by (simp add: new_events_def)
  ultimately show "\<exists>w'. newS3TableReader s3 bkt hsh chunkCount indexCache rl w = Some (Panicked PanicFalse, w') \<and>
             requests w' = requests w1 \<and> filter is_request (new_events w1 w') = []"
    by blast
next
  assume h: "gate_free s3tr w0 \<and>
       (\<forall>k<N. resets_body (length p) (response_at s3 s3tr hdr (requests w0 + k))) \<and>
       response_at s3 s3tr hdr (requests w0 + N) = GetOk (Some ContentLength) b \<and>
       ContentLength \<noteq> int (length p)"
  then have gf: "gate_free s3tr w0"
    and rs: "\<forall>k<N. resets_body (length p) (response_at s3 s3tr hdr (requests w0 + k))"
    and resp: "response_at s3 s3tr hdr (requests w0 + N) = GetOk (Some ContentLength) b"
    and ne: "ContentLength \<noteq> int (length p)"
    by simp_all
  have stop: "\<not> resets_body (length p) (response_at s3 s3tr hdr (requests w0 + N))"
    using resp ne by (cases b) simp
  from readRange_stops [OF gf rs stop]
  obtain out w' p' w'' evs where st: "readRange s3 s3tr p hdr w0 = Some (out, w')"
      "(out, w') = read s3 s3tr p' hdr w''" "length p' = length p" "requests w'' = requests w0 + N"
      "readRl_len w'' = readRl_len w0"
      "requests w' = requests w0 + N + 1"
      "events w' = events w0 @ evs"
      "filter is_request evs = replicate (Suc N) (Request (request_input s3 s3tr hdr))"
    by blast
  have gf2: "gate_free s3tr w''" using gf st(5) gate_free_cong [of w'' w0 s3tr] by simp
  from st(2) have "out = fst (read s3 s3tr p' hdr w'')" by (metis fst_conv)
  with read_outcome [OF gf2, of s3 p' hdr] resp ne st(3,4) have "out = Panicked PanicFalse" by simp
  moreover from st(7) have "new_events w0 w' = evs" by (simp add: new_events_def)
  ultimately show "\<exists>w'. readRange s3 s3tr p hdr w0 = Some (Panicked PanicFalse, w') \<and>
             requests w' = requests w0 + N + 1 \<and>
             length (filter is_request (new_events w0 w')) = N + 1"
    using st(1,6,8) by simp
qed


end
